theory Spec2Isabelle
  imports Complex_Main
begin

section \<open>The task-embedding VAE of babyai/models/vae\_task\_encoder.py\<close>

text \<open>
  The module composes tensor primitives of the numerical library: concatenation along the
  last axis, linear layers, elementwise nonlinearities, slicing and elementwise
  arithmetic. The embedding models a tensor by its shape and its row-major data over the
  reals, each primitive by a function on such tensors, and every exception the Python
  can raise by a value of \<open>error\<close>. Floating-point rounding is not modelled.
\<close>

subsection \<open>Errors\<close>

text \<open>
  \<open>ValueError\<close> carries the message of line 21. \<open>AssertionError\<close> is the
  \<^verbatim>\<open>assert\<close> of line 23, \<open>IndexError\<close> an out-of-range subscript of a list or a
  tensor, \<open>AttributeError\<close> the read of an attribute that was never assigned,
  \<open>UnboundLocalError\<close> the read of a local variable that no branch assigned, and
  \<open>RuntimeError\<close> what the tensor library raises on shapes it cannot combine or
  sizes it cannot allocate.
\<close>

datatype error =
    ValueError string
  | AssertionError
  | IndexError
  | AttributeError
  | UnboundLocalError
  | RuntimeError

subsection \<open>Tensors\<close>

record tensor =
  shape :: "nat list"
  vals :: "real list"

definition wf_tensor :: "tensor \<Rightarrow> bool" where
  "wf_tensor t = (length (vals t) = prod_list (shape t))"

definition ndim :: "tensor \<Rightarrow> nat" where
  "ndim t = length (shape t)"

text \<open>
  The last axis holds the features. A tensor is read as \<open>nrows\<close> rows of \<open>width\<close>
  features; a zero-dimensional tensor counts as one row of one feature.
\<close>

definition width :: "tensor \<Rightarrow> nat" where
  "width t = (if shape t = [] then 1 else last (shape t))"

definition nrows :: "tensor \<Rightarrow> nat" where
  "nrows t = prod_list (butlast (shape t))"

definition chunks :: "nat \<Rightarrow> nat \<Rightarrow> 'a list \<Rightarrow> 'a list list" where
  "chunks n c xs = map (\<lambda>i. take c (drop (i * c) xs)) [0..<n]"

definition rows :: "tensor \<Rightarrow> real list list" where
  "rows t = chunks (nrows t) (width t) (vals t)"

definition map_vals :: "(real \<Rightarrow> real) \<Rightarrow> tensor \<Rightarrow> tensor" where
  "map_vals f t = t\<lparr>vals := map f (vals t)\<rparr>"

definition unsqueeze0 :: "tensor \<Rightarrow> tensor" where
  "unsqueeze0 t = t\<lparr>shape := 1 # shape t\<rparr>"

text \<open>\<^verbatim>\<open>squeeze(0)\<close> drops the first axis when its size is 1 and is the identity otherwise.\<close>

definition squeeze0 :: "tensor \<Rightarrow> tensor" where
  "squeeze0 t = (case shape t of [] \<Rightarrow> t
                 | n # ns \<Rightarrow> if n = 1 then t\<lparr>shape := ns\<rparr> else t)"

subsubsection \<open>Concatenation along the last axis\<close>

text \<open>
  \<^verbatim>\<open>torch.cat(ts, dim=-1)\<close>: tensors of shape \<open>[0]\<close> are skipped; the others must
  have at least one axis and agree on every axis but the last. The result lists, row
  by row, the features of each tensor in turn.
\<close>

definition cat_last :: "tensor list \<Rightarrow> error + tensor" where
  "cat_last ts =
     (if ts = [] then Inl RuntimeError
      else case filter (\<lambda>t. shape t \<noteq> [0]) ts of
        [] \<Rightarrow> Inr \<lparr>shape = [0], vals = []\<rparr>
      | u # us \<Rightarrow>
          if list_all (\<lambda>t. shape t \<noteq> [] \<and> butlast (shape t) = butlast (shape u)) (u # us)
          then Inr \<lparr>shape = butlast (shape u) @ [sum_list (map width (u # us))],
                    vals = concat (map (\<lambda>i. concat (map (\<lambda>t. rows t ! i) (u # us)))
                                       [0..<nrows u])\<rparr>
          else Inl RuntimeError)"

subsubsection \<open>Slicing one axis\<close>

text \<open>
  A Python slice bound \<open>k\<close> on an axis of size \<open>n\<close>: a negative bound counts from the
  end, and the bound is clamped to the axis.
\<close>

definition py_index :: "int \<Rightarrow> nat \<Rightarrow> nat" where
  "py_index k n = (if k < 0 then nat (max 0 (int n + k)) else min (nat k) n)"

text \<open>
  \<open>slice_upto d k t\<close> is \<^verbatim>\<open>t[:, ..., :k]\<close> and \<open>slice_from d k t\<close> is
  \<^verbatim>\<open>t[:, ..., k:]\<close>, with the slice on axis \<open>d\<close> (which the caller checks to exist).
\<close>

definition slice_upto :: "nat \<Rightarrow> int \<Rightarrow> tensor \<Rightarrow> tensor" where
  "slice_upto d k t =
     (let n = shape t ! d;
          inner = prod_list (drop (Suc d) (shape t));
          outer = prod_list (take d (shape t));
          m = py_index k n
      in \<lparr>shape = (shape t)[d := m],
          vals = concat (map (take (m * inner)) (chunks outer (n * inner) (vals t)))\<rparr>)"

definition slice_from :: "nat \<Rightarrow> int \<Rightarrow> tensor \<Rightarrow> tensor" where
  "slice_from d k t =
     (let n = shape t ! d;
          inner = prod_list (drop (Suc d) (shape t));
          outer = prod_list (take d (shape t));
          m = py_index k n
      in \<lparr>shape = (shape t)[d := n - m],
          vals = concat (map (drop (m * inner)) (chunks outer (n * inner) (vals t)))\<rparr>)"

subsubsection \<open>Elementwise arithmetic with broadcasting\<close>

text \<open>
  Shapes are aligned at the last axis; two sizes are compatible when they are equal or
  one of them is 1. \<open>broadcast_rev\<close> works on the reversed shapes.
\<close>

fun broadcast_rev :: "nat list \<Rightarrow> nat list \<Rightarrow> nat list option" where
  "broadcast_rev [] ys = Some ys"
| "broadcast_rev (x # xs) [] = Some (x # xs)"
| "broadcast_rev (x # xs) (y # ys) =
     (if x = y \<or> y = 1 then map_option ((#) x) (broadcast_rev xs ys)
      else if x = 1 then map_option ((#) y) (broadcast_rev xs ys)
      else None)"

definition broadcast_shapes :: "nat list \<Rightarrow> nat list \<Rightarrow> nat list option" where
  "broadcast_shapes s t = map_option rev (broadcast_rev (rev s) (rev t))"

text \<open>
  \<open>expand_vals s t xs\<close> expands data of shape \<open>s\<close> to the shape \<open>t\<close> of the same
  length, repeating along every axis where \<open>s\<close> has size 1 and \<open>t\<close> has not.
\<close>

fun expand_vals :: "nat list \<Rightarrow> nat list \<Rightarrow> real list \<Rightarrow> real list" where
  "expand_vals (m # s) (n # t) xs =
     (let blocks = concat (map (expand_vals s t) (chunks m (prod_list s) xs))
      in if m = n then blocks else concat (replicate n blocks))"
| "expand_vals s t xs = xs"

definition expand_to :: "nat list \<Rightarrow> tensor \<Rightarrow> real list" where
  "expand_to s t = expand_vals (replicate (length s - ndim t) 1 @ shape t) s (vals t)"

definition binop :: "(real \<Rightarrow> real \<Rightarrow> real) \<Rightarrow> tensor \<Rightarrow> tensor \<Rightarrow> error + tensor" where
  "binop f a b =
     (if shape a = shape b then Inr \<lparr>shape = shape a, vals = map2 f (vals a) (vals b)\<rparr>
      else case broadcast_shapes (shape a) (shape b) of
        None \<Rightarrow> Inl RuntimeError
      | Some s \<Rightarrow> Inr \<lparr>shape = s, vals = map2 f (expand_to s a) (expand_to s b)\<rparr>)"

subsection \<open>Layers\<close>

text \<open>
  A linear layer holds its two widths, its weight matrix (entry \<open>j k\<close> of the
  \<open>out \<times> in\<close> matrix) and its bias. \<^verbatim>\<open>LayerNorm\<close> comes from the package
  \<^verbatim>\<open>torchkit\<close>, whose code is not part of the module: the layer holds the number of
  features it was built for and the function that gives feature \<open>j\<close> of a normalised
  row from the whole row. In a stack of \<open>build_sequential\<close> it only ever follows a
  linear layer of that output width.
\<close>

type_synonym normaliser = "real list \<Rightarrow> nat \<Rightarrow> real"

datatype layer =
    Linear nat nat "nat \<Rightarrow> nat \<Rightarrow> real" "nat \<Rightarrow> real"
  | LayerNorm nat normaliser
  | ReLU
  | Tanh

definition linear_row ::
  "nat \<Rightarrow> nat \<Rightarrow> (nat \<Rightarrow> nat \<Rightarrow> real) \<Rightarrow> (nat \<Rightarrow> real) \<Rightarrow> real list \<Rightarrow> real list" where
  "linear_row i out w b r = map (\<lambda>j. (\<Sum>k\<leftarrow>[0..<i]. w j k * r ! k) + b j) [0..<out]"

fun apply_layer :: "layer \<Rightarrow> tensor \<Rightarrow> error + tensor" where
  "apply_layer (Linear i out w b) x =
     (if shape x = [] \<or> last (shape x) \<noteq> i then Inl RuntimeError
      else Inr \<lparr>shape = butlast (shape x) @ [out],
                vals = concat (map (linear_row i out w b) (rows x))\<rparr>)"
| "apply_layer (LayerNorm n f) x =
     Inr (x\<lparr>vals := concat (map (\<lambda>r. map (f r) [0..<length r]) (rows x))\<rparr>)"
| "apply_layer ReLU x = Inr (map_vals (\<lambda>v. max 0 v) x)"
| "apply_layer Tanh x = Inr (map_vals tanh x)"

text \<open>\<^verbatim>\<open>nn.Sequential\<close>: the layers in order, stopping at the first error.\<close>

fun apply_seq :: "layer list \<Rightarrow> tensor \<Rightarrow> error + tensor" where
  "apply_seq [] x = Inr x"
| "apply_seq (l # ls) x = (case apply_layer l x of Inl e \<Rightarrow> Inl e | Inr y \<Rightarrow> apply_seq ls y)"

subsection \<open>build\_sequential\<close>

text \<open>
  \<^verbatim>\<open>_init_layer(nn.Linear(i, out))\<close>: the library refuses a negative size (and
  accepts the size 0); the weight is then drawn by the orthogonal initialiser (the draw
  \<open>w\<close> is an input of the model) and the bias set to 0.
\<close>

definition init_layer :: "(nat \<Rightarrow> nat \<Rightarrow> real) \<Rightarrow> int \<Rightarrow> int \<Rightarrow> error + layer" where
  "init_layer w i out =
     (if i < 0 \<or> out < 0 then Inl RuntimeError
      else Inr (Linear (nat i) (nat out) w (\<lambda>j. 0)))"

text \<open>
  The loop of lines 30 to 35 over consecutive pairs \<open>hiddens[i], hiddens[i+1]\<close>; \<open>n\<close>
  numbers the linear layers of the stack, for the weight draws \<open>winit n\<close>.
\<close>

fun hidden_layers ::
  "layer \<Rightarrow> bool \<Rightarrow> normaliser \<Rightarrow> (nat \<Rightarrow> nat \<Rightarrow> nat \<Rightarrow> real) \<Rightarrow> nat \<Rightarrow> int list
     \<Rightarrow> error + layer list" where
  "hidden_layers nonlin lnorm lnf winit n (a # b # hs) =
     (case init_layer (winit n) a b of
        Inl e \<Rightarrow> Inl e
      | Inr lin \<Rightarrow>
          (case hidden_layers nonlin lnorm lnf winit (Suc n) (b # hs) of
             Inl e \<Rightarrow> Inl e
           | Inr rest \<Rightarrow>
               Inr ([nonlin, lin] @ (if lnorm then [LayerNorm (nat b) lnf] else []) @ rest)))"
| "hidden_layers nonlin lnorm lnf winit n hs = Inr []"

text \<open>
  The arguments after \<open>hiddens\<close> have the defaults \<^verbatim>\<open>activation="relu"\<close>,
  \<^verbatim>\<open>layer_norm=True\<close> and \<^verbatim>\<open>output_activation=False\<close>; a call site that omits one
  passes the default, written out in the model of the call site. The activation is
  checked first (lines 16 to 21), then the \<^verbatim>\<open>assert\<close> of line 23 (assertions are taken
  to be enabled), then the layers are built in order.
\<close>

definition build_sequential ::
  "normaliser \<Rightarrow> (nat \<Rightarrow> nat \<Rightarrow> nat \<Rightarrow> real) \<Rightarrow> int \<Rightarrow> int list \<Rightarrow> string \<Rightarrow> bool \<Rightarrow> bool
     \<Rightarrow> error + layer list" where
  "build_sequential lnf winit num_inputs hiddens activation lnorm output_activation =
     (if activation \<noteq> ''relu'' \<and> activation \<noteq> ''tanh''
      then Inl (ValueError (''Unknown activation option '' @ activation @ ''!''))
      else
        let nonlin = (if activation = ''relu'' then ReLU else Tanh) in
        if \<not> 0 < length hiddens then Inl AssertionError
        else case init_layer (winit 0) num_inputs (hiddens ! 0) of
          Inl e \<Rightarrow> Inl e
        | Inr lin \<Rightarrow>
            (case hidden_layers nonlin lnorm lnf winit 1 hiddens of
               Inl e \<Rightarrow> Inl e
             | Inr rest \<Rightarrow>
                 Inr ([lin] @ (if lnorm then [LayerNorm (nat (hiddens ! 0)) lnf] else [])
                      @ rest @ (if output_activation then [nonlin] else []))))"

subsection \<open>VAETaskEncoder\<close>

text \<open>
  The attributes of the object. \<open>enc_rnn_hidden_dim\<close> is \<open>None\<close> while the attribute
  \<^verbatim>\<open>rnn_hidden_dim\<close> has not been assigned; \<open>enc_input_fc\<close> and \<open>enc_rnn\<close> are
  \<open>None\<close> where the Python stores \<^verbatim>\<open>None\<close> or nothing.
\<close>

datatype gru = GRU int int

record VAETaskEncoder =
  enc_use_rnn :: bool
  enc_task_emb_dim :: int
  enc_layer_norm :: bool
  enc_rnn_hidden_dim :: "int option"
  enc_input_fc :: "layer list option"
  enc_rnn :: "gru option"
  enc_output_fc :: "layer list"

text \<open>
  \<^verbatim>\<open>__init__\<close>. \<open>winit 0\<close> and \<open>winit 1\<close> are the weight draws of the input and the
  output stack. Line 44 assigns \<^verbatim>\<open>use_rnn = False\<close>, so line 50 always takes the
  \<^verbatim>\<open>else\<close> branch; the recurrent branch is kept as the source has it (the
  construction of the recurrent layer itself is not modelled further). In the
  non-recurrent branch \<^verbatim>\<open>hiddens[0]\<close> is evaluated while the arguments of the first
  call are built, before \<open>build_sequential\<close> runs.
\<close>

definition VAETaskEncoder_init ::
  "normaliser \<Rightarrow> (nat \<Rightarrow> nat \<Rightarrow> nat \<Rightarrow> nat \<Rightarrow> real) \<Rightarrow> int \<Rightarrow> int \<Rightarrow> int \<Rightarrow> int \<Rightarrow> int list
     \<Rightarrow> string \<Rightarrow> bool \<Rightarrow> error + VAETaskEncoder" where
  "VAETaskEncoder_init lnf winit obs_dim act_dim rew_dim task_embedding_dim hiddens activation lnorm =
     (let use_rnn = False;
          input_dim = obs_dim + act_dim + rew_dim;
          self = \<lparr>enc_use_rnn = use_rnn, enc_task_emb_dim = task_embedding_dim,
                  enc_layer_norm = lnorm, enc_rnn_hidden_dim = None, enc_input_fc = None,
                  enc_rnn = None, enc_output_fc = []\<rparr>
      in
      if use_rnn then
        (if hiddens = [] then Inl IndexError
         else if 1 < length hiddens then
           (case build_sequential lnf (winit 0) input_dim [hiddens ! 0] activation lnorm True of
              Inl e \<Rightarrow> Inl e
            | Inr fc1 \<Rightarrow>
                (case build_sequential lnf (winit 1) (hiddens ! 0)
                        (tl hiddens @ [task_embedding_dim * 2]) activation lnorm False of
                   Inl e \<Rightarrow> Inl e
                 | Inr fc2 \<Rightarrow>
                     Inr (self\<lparr>enc_rnn_hidden_dim := Some (hiddens ! 0),
                               enc_input_fc := Some fc1,
                               enc_rnn := Some (GRU (hiddens ! 0) (hiddens ! 0)),
                               enc_output_fc := fc2\<rparr>)))
         else
           (case build_sequential lnf (winit 1) (hiddens ! 0)
                   (hiddens @ [task_embedding_dim * 2]) activation True False of
              Inl e \<Rightarrow> Inl e
            | Inr fc2 \<Rightarrow>
                Inr (self\<lparr>enc_rnn_hidden_dim := Some (hiddens ! 0),
                          enc_rnn := Some (GRU input_dim (hiddens ! 0)),
                          enc_output_fc := fc2\<rparr>)))
      else
        (if hiddens = [] then Inl IndexError
         else case build_sequential lnf (winit 0) input_dim [hiddens ! 0] activation True True of
           Inl e \<Rightarrow> Inl e
         | Inr fc1 \<Rightarrow>
             (case build_sequential lnf (winit 1) (hiddens ! 0)
                     (tl hiddens @ [task_embedding_dim * 2]) activation True True of
                Inl e \<Rightarrow> Inl e
              | Inr fc2 \<Rightarrow> Inr (self\<lparr>enc_input_fc := Some fc1, enc_output_fc := fc2\<rparr>))))"

text \<open>
  \<^verbatim>\<open>init_hidden\<close>: the arguments of \<^verbatim>\<open>torch.zeros\<close> are evaluated first, so a
  missing attribute is reported before any tensor is made.
\<close>

definition init_hidden :: "VAETaskEncoder \<Rightarrow> int \<Rightarrow> error + tensor" where
  "init_hidden self batch_size =
     (case enc_rnn_hidden_dim self of
        None \<Rightarrow> Inl AttributeError
      | Some h \<Rightarrow>
          if batch_size < 0 \<or> h < 0 then Inl RuntimeError
          else Inr \<lparr>shape = [nat batch_size, nat h],
                    vals = replicate (nat batch_size * nat h) 0\<rparr>)"

text \<open>
  \<^verbatim>\<open>reparameterise\<close>. \<^verbatim>\<open>torch.randn_like(std)\<close> draws one standard-normal value for
  each element of \<open>std\<close>; the draws are the input \<open>noise\<close>, read in row-major order.
\<close>

definition randn_like :: "(nat \<Rightarrow> real) \<Rightarrow> tensor \<Rightarrow> tensor" where
  "randn_like noise t = \<lparr>shape = shape t, vals = map noise [0..<length (vals t)]\<rparr>"

definition reparameterise ::
  "VAETaskEncoder \<Rightarrow> (nat \<Rightarrow> real) \<Rightarrow> tensor \<Rightarrow> tensor \<Rightarrow> error + tensor" where
  "reparameterise self noise mu log_var =
     (let std = map_vals exp (map_vals (\<lambda>v. 0.5 * v) log_var);
          eps = randn_like noise std
      in case binop (*) eps std of
           Inl e \<Rightarrow> Inl e
         | Inr es \<Rightarrow> binop (+) mu es)"

text \<open>
  \<^verbatim>\<open>forward\<close>, lines 86 to 121: the concatenated input through the input stack, the
  optional recurrent stage and the output stack. The result is the raw output of the
  output stack, with the final hidden state when there is one. The recurrent layer is a
  library module that the model takes as the parameter \<open>rnn_forward\<close>; it is called
  only when \<open>enc_use_rnn\<close> holds.
\<close>

definition VAETaskEncoder_forward_raw ::
  "(gru \<Rightarrow> tensor \<Rightarrow> tensor option \<Rightarrow> error + tensor \<times> tensor) \<Rightarrow> VAETaskEncoder
     \<Rightarrow> tensor \<Rightarrow> tensor \<Rightarrow> tensor \<Rightarrow> tensor option \<Rightarrow> error + tensor \<times> tensor option" where
  "VAETaskEncoder_forward_raw rnn_forward self obs act rew hiddens =
     (case cat_last [obs, act, rew] of
        Inl e \<Rightarrow> Inl e
      | Inr x0 \<Rightarrow>
     (case (case enc_input_fc self of None \<Rightarrow> Inr x0 | Some fc \<Rightarrow> apply_seq fc x0) of
        Inl e \<Rightarrow> Inl e
      | Inr x1 \<Rightarrow>
     if ndim x1 < 3 \<and> shape x1 = [] then Inl IndexError
     else
       let seq_length = (if ndim x1 < 3 then Some (1::int) else None);
           x = (if ndim x1 < 3 then unsqueeze0 x1 else x1);
           hiddens1 = (if ndim x1 < 3 then map_option unsqueeze0 hiddens else hiddens)
       in
     (case (if enc_use_rnn self
            then (case enc_rnn self of
                    None \<Rightarrow> Inl AttributeError
                  | Some g \<Rightarrow>
                      (case rnn_forward g x hiddens1 of
                         Inl e \<Rightarrow> Inl e
                       | Inr (out, fin) \<Rightarrow> Inr (out, Some fin)))
            else Inr (x, None)) of
        Inl e \<Rightarrow> Inl e
      | Inr (output, final_hiddens) \<Rightarrow>
          let squeeze = (seq_length \<noteq> None \<and> seq_length = Some 1);
              output1 = (if squeeze then squeeze0 output else output);
              final_hiddens1 = (if squeeze \<and> enc_use_rnn self
                                then map_option squeeze0 final_hiddens else final_hiddens)
          in
          (case apply_seq (enc_output_fc self) output1 of
             Inl e \<Rightarrow> Inl e
           | Inr y \<Rightarrow> Inr (y, final_hiddens1)))))"

text \<open>
  Lines 124 to 129: with more than two axes the slice is written on the third axis,
  otherwise on the second; a tensor with fewer than two axes has no second axis to
  slice.
\<close>

definition split_encoder_output :: "int \<Rightarrow> tensor \<Rightarrow> error + tensor \<times> tensor" where
  "split_encoder_output k x =
     (if 2 < ndim x then Inr (slice_upto 2 k x, slice_from 2 k x)
      else if ndim x < 2 then Inl IndexError
      else Inr (slice_upto 1 k x, slice_from 1 k x))"

text \<open>
  \<^verbatim>\<open>forward\<close>, lines 123 to 140. The result is
  \<open>(task_emb, mu, log_var, z, final_hiddens)\<close>, where \<open>final_hiddens = None\<close> stands
  for the four-tuple of the non-recurrent mode.
\<close>

definition VAETaskEncoder_forward ::
  "(gru \<Rightarrow> tensor \<Rightarrow> tensor option \<Rightarrow> error + tensor \<times> tensor) \<Rightarrow> (nat \<Rightarrow> real)
     \<Rightarrow> VAETaskEncoder \<Rightarrow> tensor \<Rightarrow> tensor \<Rightarrow> tensor \<Rightarrow> tensor option
     \<Rightarrow> error + tensor \<times> tensor \<times> tensor \<times> tensor \<times> tensor option" where
  "VAETaskEncoder_forward rnn_forward noise self obs act rew hiddens =
     (case VAETaskEncoder_forward_raw rnn_forward self obs act rew hiddens of
        Inl e \<Rightarrow> Inl e
      | Inr (x, final_hiddens) \<Rightarrow>
     (case split_encoder_output (enc_task_emb_dim self) x of
        Inl e \<Rightarrow> Inl e
      | Inr (mu, log_var) \<Rightarrow>
     (case cat_last [mu, log_var] of
        Inl e \<Rightarrow> Inl e
      | Inr task_emb \<Rightarrow>
     (case reparameterise self noise mu log_var of
        Inl e \<Rightarrow> Inl e
      | Inr z \<Rightarrow> Inr (task_emb, mu, log_var, z, final_hiddens)))))"

subsection \<open>TaskDecoder\<close>

record TaskDecoder =
  dec_obs_dim :: int
  dec_rew_dim :: int
  dec_decoder :: "layer list"

definition TaskDecoder_init ::
  "normaliser \<Rightarrow> (nat \<Rightarrow> nat \<Rightarrow> nat \<Rightarrow> real) \<Rightarrow> int \<Rightarrow> int \<Rightarrow> int \<Rightarrow> int \<Rightarrow> string
     \<Rightarrow> error + TaskDecoder" where
  "TaskDecoder_init lnf winit task_embedding_dim obs_dim act_dim rew_dim activation =
     (case build_sequential lnf winit (task_embedding_dim + obs_dim + act_dim)
             [obs_dim + rew_dim] activation True False of
        Inl e \<Rightarrow> Inl e
      | Inr d \<Rightarrow> Inr \<lparr>dec_obs_dim = obs_dim, dec_rew_dim = rew_dim, dec_decoder = d\<rparr>)"

text \<open>Lines 151 and 152: the raw output of the decoder stack.\<close>

definition TaskDecoder_forward_raw ::
  "TaskDecoder \<Rightarrow> tensor \<Rightarrow> tensor \<Rightarrow> tensor \<Rightarrow> error + tensor" where
  "TaskDecoder_forward_raw self task_emb obs act =
     (case cat_last [task_emb, obs, act] of
        Inl e \<Rightarrow> Inl e
      | Inr x \<Rightarrow> apply_seq (dec_decoder self) x)"

text \<open>
  Lines 153 to 160: no branch assigns \<^verbatim>\<open>obs_pred\<close> when the output has neither two
  nor three axes, and the \<^verbatim>\<open>return\<close> then reads an unassigned local variable.
\<close>

definition TaskDecoder_forward ::
  "TaskDecoder \<Rightarrow> tensor \<Rightarrow> tensor \<Rightarrow> tensor \<Rightarrow> error + tensor \<times> tensor" where
  "TaskDecoder_forward self task_emb obs act =
     (case TaskDecoder_forward_raw self task_emb obs act of
        Inl e \<Rightarrow> Inl e
      | Inr out \<Rightarrow>
          if ndim out = 2
          then Inr (slice_upto 1 (dec_obs_dim self) out, slice_from 1 (dec_obs_dim self) out)
          else if ndim out = 3
          then Inr (slice_upto 2 (dec_obs_dim self) out, slice_from 2 (dec_obs_dim self) out)
          else Inl UnboundLocalError)"

subsection \<open>VAE\<close>

record VAE =
  vae_encoder :: VAETaskEncoder
  vae_decoder :: TaskDecoder

definition VAE_init ::
  "normaliser \<Rightarrow> (nat \<Rightarrow> nat \<Rightarrow> nat \<Rightarrow> nat \<Rightarrow> real) \<Rightarrow> (nat \<Rightarrow> nat \<Rightarrow> nat \<Rightarrow> real)
     \<Rightarrow> int \<Rightarrow> int \<Rightarrow> int \<Rightarrow> int \<Rightarrow> int \<Rightarrow> int list \<Rightarrow> string \<Rightarrow> bool \<Rightarrow> error + VAE" where
  "VAE_init lnf winit_enc winit_dec task_emb_dim obs_dim act_dim rew_dim n_agents hiddens
       activation lnorm =
     (case VAETaskEncoder_init lnf winit_enc obs_dim act_dim rew_dim task_emb_dim hiddens
             activation lnorm of
        Inl e \<Rightarrow> Inl e
      | Inr enc \<Rightarrow>
          (case TaskDecoder_init lnf winit_dec task_emb_dim obs_dim act_dim n_agents
                  activation of
             Inl e \<Rightarrow> Inl e
           | Inr dec \<Rightarrow> Inr \<lparr>vae_encoder = enc, vae_decoder = dec\<rparr>))"

subsection \<open>Auxiliary notions\<close>

text \<open>
  The width that a stack gives a tensor of width \<open>w\<close>: \<open>None\<close> when a linear layer
  meets a width it was not built for.
\<close>

fun out_width :: "layer list \<Rightarrow> nat \<Rightarrow> nat option" where
  "out_width [] w = Some w"
| "out_width (Linear i out wt b # ls) w = (if w = i then out_width ls out else None)"
| "out_width (l # ls) w = out_width ls w"

text \<open>Every linear layer of the stack is directly followed by a normalisation of its width.\<close>

fun linear_then_norm :: "layer list \<Rightarrow> bool" where
  "linear_then_norm [] = True"
| "linear_then_norm (Linear i out w b # LayerNorm n f # ls) = (n = out \<and> linear_then_norm ls)"
| "linear_then_norm (Linear i out w b # ls) = False"
| "linear_then_norm (l # ls) = linear_then_norm ls"

text \<open>The numbers of linear layers and of normalisations in a stack.\<close>

fun count_linear :: "layer list \<Rightarrow> nat" where
  "count_linear [] = 0"
| "count_linear (Linear i out w b # ls) = Suc (count_linear ls)"
| "count_linear (l # ls) = count_linear ls"

fun count_norm :: "layer list \<Rightarrow> nat" where
  "count_norm [] = 0"
| "count_norm (LayerNorm n f # ls) = Suc (count_norm ls)"
| "count_norm (l # ls) = count_norm ls"

subsection \<open>Concrete inputs\<close>

text \<open>
  A normaliser, weight draws, noise and tensors at which the theorems below are
  instantiated.
\<close>

definition ex_norm :: normaliser where
  "ex_norm r j = r ! j"

definition ex_winit :: "nat \<Rightarrow> nat \<Rightarrow> nat \<Rightarrow> real" where
  "ex_winit n j k = 1"

definition ex_winit2 :: "nat \<Rightarrow> nat \<Rightarrow> nat \<Rightarrow> nat \<Rightarrow> real" where
  "ex_winit2 s n j k = 1"

definition ex_noise :: "nat \<Rightarrow> real" where
  "ex_noise i = 1"




definition ex_rnn_forward :: "gru \<Rightarrow> tensor \<Rightarrow> tensor option \<Rightarrow> error + tensor \<times> tensor" where
  "ex_rnn_forward g x h = Inr (x, x)"

definition ex_row :: tensor where
  "ex_row = \<lparr>shape = [1, 1], vals = [1]\<rparr>"

definition ex_vec :: tensor where
  "ex_vec = \<lparr>shape = [1], vals = [1]\<rparr>"

definition ex_encoder :: VAETaskEncoder where
  "ex_encoder = \<lparr>enc_use_rnn = False, enc_task_emb_dim = 1, enc_layer_norm = True,
          enc_rnn_hidden_dim = None,
          enc_input_fc = Some [Linear 3 2 (ex_winit2 0 0) (\<lambda>j. 0), LayerNorm 2 ex_norm, ReLU],
          enc_rnn = None,
          enc_output_fc = [Linear 2 2 (ex_winit2 1 0) (\<lambda>j. 0), LayerNorm 2 ex_norm, ReLU]\<rparr>"

definition ex_decoder :: TaskDecoder where
  "ex_decoder = \<lparr>dec_obs_dim = 1, dec_rew_dim = 1,
                  dec_decoder = [Linear 3 2 (ex_winit 0) (\<lambda>j. 0), LayerNorm 2 ex_norm]\<rparr>"

definition ex_vae_decoder :: TaskDecoder where
  "ex_vae_decoder = \<lparr>dec_obs_dim = 1, dec_rew_dim = 2,
                      dec_decoder = [Linear 3 3 (ex_winit 0) (\<lambda>j. 0), LayerNorm 3 ex_norm]\<rparr>"

definition ex_cube :: tensor where
  "ex_cube = \<lparr>shape = [1, 1, 2, 2], vals = [1, 2, 3, 4]\<rparr>"

definition ex_quad :: tensor where
  "ex_quad = \<lparr>shape = [1, 1, 2, 1], vals = [1, 1]\<rparr>"

section \<open>Properties\<close>

subsection \<open>Rows and chunks\<close>

lemma length_chunks [simp]: "length (chunks n c xs) = n"
  by (simp add: chunks_def)

lemma nth_chunks [simp]: "i < n \<Longrightarrow> chunks n c xs ! i = take c (drop (i * c) xs)"
  by (simp add: chunks_def)

lemma length_concat_map_upt:
  "(\<And>i. i < n \<Longrightarrow> length (f i) = c) \<Longrightarrow> length (concat (map f [0..<n])) = n * c"
  by (induction n) simp_all

lemma length_concat_const:
  "(\<And>r. r \<in> set rs \<Longrightarrow> length r = c) \<Longrightarrow> length (concat rs) = length rs * c"
  by (induction rs) simp_all

lemma concat_chunks_take: "concat (chunks n c xs) = take (n * c) xs"
proof (induction n)
  case 0
  show ?case by (simp add: chunks_def)
next
  case (Suc n)
  have "concat (chunks (Suc n) c xs) = concat (chunks n c xs) @ take c (drop (n * c) xs)"
    by (simp add: chunks_def)
  also have "\<dots> = take (n * c) xs @ take c (drop (n * c) xs)"
    by (simp add: Suc.IH)
  also have "\<dots> = take (n * c + c) xs"
    by (simp add: take_add)
  finally show ?case by (simp add: add.commute)
qed

lemma concat_chunks: "length xs = n * c \<Longrightarrow> concat (chunks n c xs) = xs"
  by (simp add: concat_chunks_take)

lemma chunk_length:
  assumes "length xs = n * c" "i < n"
  shows "length (take c (drop (i * c) xs)) = c"
proof -
  have "i * c + c \<le> n * c"
    using assms(2) by (metis Suc_leI mult_Suc mult_le_mono1 add.commute)
  then show ?thesis using assms(1) by simp
qed

lemma chunks_all_length:
  "length xs = n * c \<Longrightarrow> r \<in> set (chunks n c xs) \<Longrightarrow> length r = c"
  using chunk_length [of xs n c] by (auto simp: chunks_def simp del: length_take length_drop)

lemma take_drop_concat_nth:
  "(\<And>r. r \<in> set rs \<Longrightarrow> length r = c) \<Longrightarrow> i < length rs \<Longrightarrow>
   take c (drop (i * c) (concat rs)) = rs ! i"
proof (induction rs arbitrary: i)
  case Nil
  then show ?case by simp
next
  case (Cons r rs)
  show ?case
  proof (cases i)
    case 0
    then show ?thesis using Cons.prems(1) by simp
  next
    case (Suc j)
    then show ?thesis using Cons by simp
  qed
qed

lemma chunks_concat:
  "(\<And>r. r \<in> set rs \<Longrightarrow> length r = c) \<Longrightarrow> chunks (length rs) c (concat rs) = rs"
  by (rule nth_equalityI) (simp_all add: take_drop_concat_nth)

subsection \<open>Rows of a tensor\<close>

lemma shape_snoc [simp]:
  "shape t = ld @ [w] \<Longrightarrow> nrows t = prod_list ld"
  "shape t = ld @ [w] \<Longrightarrow> width t = w"
  by (simp_all add: nrows_def width_def)

lemma nrows_width: "nrows t * width t = prod_list (shape t)"
proof (cases "shape t" rule: rev_cases)
  case Nil
  then show ?thesis by (simp add: nrows_def width_def)
next
  case (snoc ns n)
  then show ?thesis by simp
qed

lemma length_rows [simp]: "length (rows t) = nrows t"
  by (simp add: rows_def)

lemma concat_rows: "wf_tensor t \<Longrightarrow> concat (rows t) = vals t"
  by (simp add: rows_def wf_tensor_def concat_chunks nrows_width)

lemma rows_all_length: "wf_tensor t \<Longrightarrow> r \<in> set (rows t) \<Longrightarrow> length r = width t"
  unfolding rows_def wf_tensor_def
  by (rule chunks_all_length [of "vals t" "nrows t"]) (simp_all add: nrows_width)

subsection \<open>Layers keep tensors well formed\<close>

lemma length_linear_row [simp]: "length (linear_row i out w b r) = out"
  by (simp add: linear_row_def)

lemma wf_apply_layer:
  assumes "wf_tensor x" "apply_layer l x = Inr y"
  shows "wf_tensor y"
proof (cases l)
  case (Linear i out w b)
  with assms(2) have ne: "shape x \<noteq> []"
    and y: "y = \<lparr>shape = butlast (shape x) @ [out],
                  vals = concat (map (linear_row i out w b) (rows x))\<rparr>"
    by (auto split: if_splits)
  have "length (concat (map (linear_row i out w b) (rows x)))
          = length (map (linear_row i out w b) (rows x)) * out"
    by (rule length_concat_const) auto
  then show ?thesis by (simp add: y wf_tensor_def nrows_def)
next
  case (LayerNorm n f)
  with assms(2) have y: "y = x\<lparr>vals := concat (map (\<lambda>r. map (f r) [0..<length r]) (rows x))\<rparr>"
    by simp
  have "length (concat (map (\<lambda>r. map (f r) [0..<length r]) (rows x)))
          = length (map (\<lambda>r. map (f r) [0..<length r]) (rows x)) * width x"
    by (rule length_concat_const) (auto simp: rows_all_length [OF assms(1)])
  then show ?thesis by (simp add: y wf_tensor_def nrows_width)
next
  case ReLU
  with assms show ?thesis by (auto simp: wf_tensor_def map_vals_def)
next
  case Tanh
  with assms show ?thesis by (auto simp: wf_tensor_def map_vals_def)
qed

lemma wf_apply_seq: "wf_tensor x \<Longrightarrow> apply_seq ls x = Inr y \<Longrightarrow> wf_tensor y"
  by (induction ls arbitrary: x) (auto split: sum.splits dest: wf_apply_layer)

subsection \<open>Widths through the stacks of build\_sequential\<close>

lemma apply_seq_shape:
  "out_width ls w = Some w' \<Longrightarrow> shape x = ld @ [w] \<Longrightarrow>
   \<exists>y. apply_seq ls x = Inr y \<and> shape y = ld @ [w']"
proof (induction ls arbitrary: x w)
  case Nil
  then show ?case by simp
next
  case (Cons l ls)
  show ?case
  proof (cases l)
    case (Linear i out wt b)
    with Cons.prems have wi: "w = i" and ow: "out_width ls out = Some w'"
      by (auto split: if_splits)
    let ?y = "\<lparr>shape = butlast (shape x) @ [out],
               vals = concat (map (linear_row i out wt b) (rows x))\<rparr>"
    have "apply_layer l x = Inr ?y" using Linear Cons.prems(2) wi by simp
    moreover have "shape ?y = ld @ [out]" using Cons.prems(2) by simp
    ultimately show ?thesis using Cons.IH [OF ow, of ?y] by simp
  next
    case (LayerNorm n f)
    with Cons.prems Cons.IH [of w "x\<lparr>vals := concat (map (\<lambda>r. map (f r) [0..<length r]) (rows x))\<rparr>"]
    show ?thesis by simp
  next
    case ReLU
    with Cons.prems Cons.IH [of w "map_vals (\<lambda>v. max 0 v) x"]
    show ?thesis by (simp add: map_vals_def)
  next
    case Tanh
    with Cons.prems Cons.IH [of w "map_vals tanh x"]
    show ?thesis by (simp add: map_vals_def)
  qed
qed

lemma out_width_append:
  "out_width (xs @ ys) w = (case out_width xs w of None \<Rightarrow> None | Some v \<Rightarrow> out_width ys v)"
  by (induction xs w rule: out_width.induct) simp_all

lemma hidden_layers_width:
  "hidden_layers nonlin lnorm lnf winit n hs = Inr rest \<Longrightarrow> hs \<noteq> [] \<Longrightarrow>
   nonlin = ReLU \<or> nonlin = Tanh \<Longrightarrow>
   out_width rest (nat (hd hs)) = Some (nat (last hs))"
proof (induction nonlin lnorm lnf winit n hs arbitrary: rest rule: hidden_layers.induct)
  case (1 nonlin lnorm lnf winit n a b hs)
  from "1.prems"(1) obtain rest' where
    ab: "0 \<le> a" "0 \<le> b" and
    r': "hidden_layers nonlin lnorm lnf winit (Suc n) (b # hs) = Inr rest'" and
    rest: "rest = [nonlin, Linear (nat a) (nat b) (winit n) (\<lambda>j. 0)]
                  @ (if lnorm then [LayerNorm (nat b) lnf] else []) @ rest'"
    by (auto simp: init_layer_def split: sum.splits if_splits)
  have "out_width rest' (nat b) = Some (nat (last (b # hs)))"
    using "1.IH" [OF _ r'] ab "1.prems"(3) by (auto simp: init_layer_def)
  then show ?case using "1.prems"(3) by (auto simp: rest)
qed simp_all

lemma build_sequential_width:
  assumes "build_sequential lnf winit n hs act lnorm oa = Inr ls"
  shows "out_width ls (nat n) = Some (nat (last hs))"
proof -
  let ?nonlin = "if act = ''relu'' then ReLU else Tanh"
  from assms obtain rest where
    hs: "hs \<noteq> []" and
    r: "hidden_layers ?nonlin lnorm lnf winit 1 hs = Inr rest" and
    ls: "ls = [Linear (nat n) (nat (hs ! 0)) (winit 0) (\<lambda>j. 0)]
              @ (if lnorm then [LayerNorm (nat (hs ! 0)) lnf] else [])
              @ rest @ (if oa then [?nonlin] else [])"
    by (auto simp: build_sequential_def Let_def init_layer_def split: sum.splits if_splits)
  have "out_width rest (nat (hd hs)) = Some (nat (last hs))"
    using hidden_layers_width [OF r hs] by auto
  moreover have "hs ! 0 = hd hs" using hs by (simp add: hd_conv_nth)
  ultimately show ?thesis by (auto simp: ls out_width_append)
qed

lemma hidden_layers_ok:
  "list_all (\<lambda>h. 0 \<le> h) hs \<Longrightarrow> \<exists>rest. hidden_layers nonlin lnorm lnf winit n hs = Inr rest"
proof (induction hs arbitrary: n)
  case Nil
  show ?case by simp
next
  case (Cons a hs)
  show ?case
  proof (cases hs)
    case Nil
    then show ?thesis by simp
  next
    case (Cons b hs')
    obtain rest where "hidden_layers nonlin lnorm lnf winit (Suc n) hs = Inr rest"
      using Cons.IH Cons.prems by auto
    then show ?thesis using Cons Cons.prems by (simp add: init_layer_def)
  qed
qed

lemma build_sequential_ok:
  assumes "act = ''relu'' \<or> act = ''tanh''" "hs \<noteq> []" "0 \<le> n" "list_all (\<lambda>h. 0 \<le> h) hs"
  shows "\<exists>ls. build_sequential lnf winit n hs act lnorm oa = Inr ls"
proof -
  have "0 \<le> hs ! 0" using assms(2,4) by (cases hs) auto
  moreover obtain rest where
    "hidden_layers (if act = ''relu'' then ReLU else Tanh) lnorm lnf winit 1 hs = Inr rest"
    using hidden_layers_ok [OF assms(4)] by blast
  ultimately show ?thesis
    using assms(1,2,3) by (auto simp: build_sequential_def Let_def init_layer_def)
qed

subsection \<open>Slices and concatenation\<close>

lemma py_index_le: "py_index k n \<le> n"
  unfolding py_index_def by (cases "k < 0") auto

lemma py_index_nonneg: "0 \<le> k \<Longrightarrow> py_index k n = min (nat k) n"
  by (simp add: py_index_def)

lemma slice_upto_last:
  assumes "shape x = ld @ [W]" "d = length ld"
  shows "slice_upto d k x =
    \<lparr>shape = ld @ [py_index k W], vals = concat (map (take (py_index k W)) (rows x))\<rparr>"
  using assms by (simp add: slice_upto_def Let_def rows_def)

lemma slice_from_last:
  assumes "shape x = ld @ [W]" "d = length ld"
  shows "slice_from d k x =
    \<lparr>shape = ld @ [W - py_index k W], vals = concat (map (drop (py_index k W)) (rows x))\<rparr>"
  using assms by (simp add: slice_from_def Let_def rows_def)

lemma rows_of_rows:
  assumes "length rs = prod_list ld" "\<And>r. r \<in> set rs \<Longrightarrow> length r = w"
  shows "rows \<lparr>shape = ld @ [w], vals = concat rs\<rparr> = rs"
  using chunks_concat [of rs w] assms by (simp add: rows_def)

lemma rows_slice_upto:
  assumes "shape x = ld @ [W]" "wf_tensor x" "m \<le> W"
  shows "rows \<lparr>shape = ld @ [m], vals = concat (map (take m) (rows x))\<rparr> = map (take m) (rows x)"
proof (rule rows_of_rows)
  show "length (map (take m) (rows x)) = prod_list ld" using assms(1) by simp
next
  fix r assume "r \<in> set (map (take m) (rows x))"
  then show "length r = m"
    using rows_all_length [OF assms(2)] assms(1,3) by auto
qed

lemma rows_slice_from:
  assumes "shape x = ld @ [W]" "wf_tensor x"
  shows "rows \<lparr>shape = ld @ [W - m], vals = concat (map (drop m) (rows x))\<rparr>
         = map (drop m) (rows x)"
proof (rule rows_of_rows)
  show "length (map (drop m) (rows x)) = prod_list ld" using assms(1) by simp
next
  fix r assume "r \<in> set (map (drop m) (rows x))"
  then show "length r = W - m"
    using rows_all_length [OF assms(2)] assms(1) by auto
qed

lemma cat_last3_shape:
  assumes "shape a = ld @ [wa]" "shape b = ld @ [wb]" "shape c = ld @ [wc]" "ld \<noteq> []"
  shows "\<exists>x. cat_last [a, b, c] = Inr x \<and> shape x = ld @ [wa + wb + wc]"
  using assms by (simp add: cat_last_def)

lemma cat_last2_shape:
  assumes "shape a = ld @ [wa]" "shape b = ld @ [wb]" "ld \<noteq> []"
  shows "\<exists>x. cat_last [a, b] = Inr x \<and> shape x = ld @ [wa + wb]"
  using assms by (simp add: cat_last_def)

lemma cat_last_split:
  assumes sh: "shape x = ld @ [W]" and ld: "ld \<noteq> []" and wf: "wf_tensor x"
    and d: "d = length ld"
  shows "cat_last [slice_upto d k x, slice_from d k x] = Inr x"
proof -
  let ?m = "py_index k W"
  let ?mu = "\<lparr>shape = ld @ [?m], vals = concat (map (take ?m) (rows x))\<rparr>"
  let ?lv = "\<lparr>shape = ld @ [W - ?m], vals = concat (map (drop ?m) (rows x))\<rparr>"
  have rmu: "rows ?mu = map (take ?m) (rows x)"
    by (rule rows_slice_upto [OF sh wf py_index_le])
  have rlv: "rows ?lv = map (drop ?m) (rows x)"
    by (rule rows_slice_from [OF sh wf])
  have "map (\<lambda>i. rows ?mu ! i @ rows ?lv ! i) [0..<prod_list ld]
        = map (\<lambda>i. rows x ! i) [0..<prod_list ld]"
    using sh by (simp add: rmu rlv)
  also have "\<dots> = rows x"
    using sh map_nth [of "rows x"] by simp
  finally have v: "concat (map (\<lambda>i. rows ?mu ! i @ rows ?lv ! i) [0..<prod_list ld]) = vals x"
    by (simp add: concat_rows [OF wf])
  have "cat_last [?mu, ?lv] = Inr \<lparr>shape = ld @ [?m + (W - ?m)],
          vals = concat (map (\<lambda>i. rows ?mu ! i @ rows ?lv ! i) [0..<prod_list ld])\<rparr>"
    using ld by (simp add: cat_last_def)
  also have "\<dots> = Inr x"
    using sh py_index_le [of k W] by (simp add: v)
  finally show ?thesis
    by (simp add: slice_upto_last [OF sh d] slice_from_last [OF sh d])
qed

subsection \<open>The forward pass without the recurrent stage\<close>

lemma squeeze0_unsqueeze0 [simp]: "squeeze0 (unsqueeze0 t) = t"
  by (simp add: squeeze0_def unsqueeze0_def)

lemma forward_raw_feedforward:
  assumes "\<not> enc_use_rnn self"
  shows "VAETaskEncoder_forward_raw rf self obs act rew hid =
    (case cat_last [obs, act, rew] of
       Inl e \<Rightarrow> Inl e
     | Inr x0 \<Rightarrow>
         (case (case enc_input_fc self of None \<Rightarrow> Inr x0 | Some fc \<Rightarrow> apply_seq fc x0) of
            Inl e \<Rightarrow> Inl e
          | Inr x1 \<Rightarrow>
              if shape x1 = [] then Inl IndexError
              else (case apply_seq (enc_output_fc self) x1 of
                      Inl e \<Rightarrow> Inl e
                    | Inr y \<Rightarrow> Inr (y, None))))"
  using assms
  by (auto simp: VAETaskEncoder_forward_raw_def Let_def ndim_def split: sum.splits)

lemma wf_cat_last:
  assumes "list_all wf_tensor ts" "cat_last ts = Inr x"
  shows "wf_tensor x"
proof (cases "filter (\<lambda>t. shape t \<noteq> [0]) ts")
  case Nil
  with assms(2) show ?thesis
    by (auto simp: cat_last_def wf_tensor_def split: if_splits)
next
  case (Cons u us)
  let ?us = "u # us"
  have sub: "set ?us \<subseteq> set ts" using Cons [symmetric] by auto
  from assms(2) Cons have
    ok: "list_all (\<lambda>t. shape t \<noteq> [] \<and> butlast (shape t) = butlast (shape u)) ?us" and
    x: "x = \<lparr>shape = butlast (shape u) @ [sum_list (map width ?us)],
             vals = concat (map (\<lambda>i. concat (map (\<lambda>t. rows t ! i) ?us)) [0..<nrows u])\<rparr>"
    by (auto simp: cat_last_def split: if_splits)
  have len: "length (concat (map (\<lambda>t. rows t ! i) ?us)) = sum_list (map width ?us)"
    if i: "i < nrows u" for i
  proof -
    have "length (rows t ! i) = width t" if t: "t \<in> set ?us" for t
    proof -
      have "wf_tensor t" using t sub assms(1) by (auto simp: list_all_iff)
      moreover have "nrows t = nrows u"
        using ok t by (auto simp: list_all_iff nrows_def)
      ultimately show ?thesis
        using rows_all_length [of t "rows t ! i"] i by simp
    qed
    then have "map (\<lambda>t. length (rows t ! i)) ?us = map width ?us"
      by (intro map_cong) auto
    moreover have "length (concat (map (\<lambda>t. rows t ! i) ?us))
                   = sum_list (map (\<lambda>t. length (rows t ! i)) ?us)"
      unfolding length_concat map_map comp_def ..
    ultimately show ?thesis by (simp only:)
  qed
  have "length (concat (map (\<lambda>i. concat (map (\<lambda>t. rows t ! i) ?us)) [0..<nrows u]))
        = nrows u * sum_list (map width ?us)"
    by (rule length_concat_map_upt) (rule len)
  then show ?thesis by (simp add: x wf_tensor_def nrows_def)
qed

lemma ndim_apply_layer: "apply_layer l x = Inr y \<Longrightarrow> ndim y = ndim x"
  by (cases l) (auto simp: ndim_def map_vals_def split: if_splits)

lemma ndim_apply_seq: "apply_seq ls x = Inr y \<Longrightarrow> ndim y = ndim x"
  by (induction ls arbitrary: x) (auto split: sum.splits dest: ndim_apply_layer)

lemma ndim_cat_last:
  assumes "cat_last (a # ts) = Inr x" "2 \<le> ndim a"
  shows "ndim x = ndim a"
proof -
  have "shape a \<noteq> [0]" "shape a \<noteq> []" using assms(2) by (auto simp: ndim_def)
  then show ?thesis using assms(1)
    by (auto simp: cat_last_def ndim_def split: if_splits)
qed

lemma split_encoder_output_last:
  assumes "shape x = ld @ [W]" "length ld = 1 \<or> length ld = 2"
  shows "split_encoder_output k x
         = Inr (slice_upto (length ld) k x, slice_from (length ld) k x)"
  using assms by (auto simp: split_encoder_output_def ndim_def)

lemma reparameterise_same_shape:
  assumes "shape mu = shape log_var"
  shows "reparameterise self noise mu log_var =
    Inr \<lparr>shape = shape mu,
         vals = map2 (+) (vals mu)
                  (map2 (*) (map noise [0..<length (vals log_var)])
                            (map (\<lambda>v. exp (0.5 * v)) (vals log_var)))\<rparr>"
  using assms
  by (simp add: reparameterise_def Let_def binop_def randn_like_def map_vals_def comp_def)

subsection \<open>Construction and its errors\<close>

lemma VAETaskEncoder_init_Inr:
  assumes "VAETaskEncoder_init lnf winit od ad rd te hs act lnorm = Inr enc"
  shows "hs \<noteq> [] \<and>
    (\<exists>fc1 fc2.
       build_sequential lnf (winit 0) (od + ad + rd) [hs ! 0] act True True = Inr fc1 \<and>
       build_sequential lnf (winit 1) (hs ! 0) (tl hs @ [te * 2]) act True True = Inr fc2 \<and>
       enc = \<lparr>enc_use_rnn = False, enc_task_emb_dim = te, enc_layer_norm = lnorm,
              enc_rnn_hidden_dim = None, enc_input_fc = Some fc1, enc_rnn = None,
              enc_output_fc = fc2\<rparr>)"
  using assms
  by (auto simp: VAETaskEncoder_init_def Let_def split: sum.splits if_splits)

lemma VAETaskEncoder_init_eq:
  assumes "hs \<noteq> []"
    "build_sequential lnf (winit 0) (od + ad + rd) [hs ! 0] act True True = Inr fc1"
    "build_sequential lnf (winit 1) (hs ! 0) (tl hs @ [te * 2]) act True True = Inr fc2"
  shows "VAETaskEncoder_init lnf winit od ad rd te hs act lnorm =
     Inr \<lparr>enc_use_rnn = False, enc_task_emb_dim = te, enc_layer_norm = lnorm,
          enc_rnn_hidden_dim = None, enc_input_fc = Some fc1, enc_rnn = None,
          enc_output_fc = fc2\<rparr>"
  using assms by (simp add: VAETaskEncoder_init_def Let_def)

lemma hidden_layers_error:
  "hidden_layers nonlin lnorm lnf winit n hs = Inl e \<Longrightarrow> e = RuntimeError"
  by (induction nonlin lnorm lnf winit n hs rule: hidden_layers.induct)
     (auto simp: init_layer_def split: sum.splits if_splits)

lemma build_sequential_unknown:
  "activation \<noteq> ''relu'' \<Longrightarrow> activation \<noteq> ''tanh'' \<Longrightarrow>
   build_sequential lnf winit n hs activation lnorm oa =
     Inl (ValueError (''Unknown activation option '' @ activation @ ''!''))"
  by (simp add: build_sequential_def)

lemma build_sequential_error:
  "activation = ''relu'' \<or> activation = ''tanh'' \<Longrightarrow>
   build_sequential lnf winit n hs activation lnorm oa = Inl e \<Longrightarrow>
   e = AssertionError \<or> e = RuntimeError"
  by (auto simp: build_sequential_def Let_def init_layer_def
           split: sum.splits if_splits dest: hidden_layers_error)

subsection \<open>Normalisation after every linear layer\<close>

lemma linear_then_norm_append:
  "linear_then_norm xs \<Longrightarrow> linear_then_norm ys \<Longrightarrow> linear_then_norm (xs @ ys)"
  by (induction xs rule: linear_then_norm.induct) simp_all

lemma hidden_layers_normed:
  "hidden_layers nonlin True lnf winit n hs = Inr rest \<Longrightarrow> nonlin = ReLU \<or> nonlin = Tanh \<Longrightarrow>
   linear_then_norm rest"
proof (induction nonlin "True" lnf winit n hs arbitrary: rest rule: hidden_layers.induct)
  case (1 nonlin lnf winit n a b hs)
  from "1.prems"(1) obtain rest' where
    ab: "0 \<le> a" "0 \<le> b" and
    r': "hidden_layers nonlin True lnf winit (Suc n) (b # hs) = Inr rest'" and
    rest: "rest = [nonlin, Linear (nat a) (nat b) (winit n) (\<lambda>j. 0), LayerNorm (nat b) lnf]
                  @ rest'"
    by (auto simp: init_layer_def split: sum.splits if_splits)
  have "linear_then_norm rest'"
    using "1.hyps" [OF _ r'] ab "1.prems"(2) by (auto simp: init_layer_def)
  then show ?case using "1.prems"(2) by (auto simp: rest)
qed simp_all

lemma build_sequential_normed:
  assumes "build_sequential lnf winit n hs act True oa = Inr ls"
  shows "linear_then_norm ls"
proof -
  let ?nonlin = "if act = ''relu'' then ReLU else Tanh"
  from assms obtain rest where
    r: "hidden_layers ?nonlin True lnf winit 1 hs = Inr rest" and
    ls: "ls = [Linear (nat n) (nat (hs ! 0)) (winit 0) (\<lambda>j. 0), LayerNorm (nat (hs ! 0)) lnf]
              @ (rest @ (if oa then [?nonlin] else []))"
    by (auto simp: build_sequential_def Let_def init_layer_def split: sum.splits if_splits)
  have "linear_then_norm rest" using hidden_layers_normed [OF r] by auto
  then have "linear_then_norm (rest @ (if oa then [?nonlin] else []))"
    by (intro linear_then_norm_append) auto
  then show ?thesis by (simp add: ls)
qed

subsection \<open>Shapes of the results of the decoder\<close>

lemma TaskDecoder_init_Inr:
  assumes "TaskDecoder_init lnf winit te od ad rd act = Inr dec"
  shows "0 \<le> te + od + ad \<and> 0 \<le> od + rd \<and> (act = ''relu'' \<or> act = ''tanh'') \<and>
         dec = \<lparr>dec_obs_dim = od, dec_rew_dim = rd,
                dec_decoder = [Linear (nat (te + od + ad)) (nat (od + rd)) (winit 0) (\<lambda>j. 0),
                               LayerNorm (nat (od + rd)) lnf]\<rparr>"
  using assms
  by (auto simp: TaskDecoder_init_def build_sequential_def Let_def init_layer_def
           split: sum.splits if_splits)

lemma decoder_forward_shapes:
  assumes dec: "TaskDecoder_init lnf winit te od ad rd act = Inr dec"
    and nn: "0 \<le> te" "0 \<le> od" "0 \<le> ad" "0 \<le> rd"
    and sh: "shape z = ld @ [nat te]" "shape obs = ld @ [nat od]" "shape a = ld @ [nat ad]"
    and ld: "length ld = 1 \<or> length ld = 2"
  shows "\<exists>out. TaskDecoder_forward_raw dec z obs a = Inr out \<and>
           shape out = ld @ [nat (od + rd)] \<and>
           TaskDecoder_forward dec z obs a
             = Inr (slice_upto (length ld) od out, slice_from (length ld) od out) \<and>
           slice_upto (length ld) od out
             = \<lparr>shape = ld @ [nat od], vals = concat (map (take (nat od)) (rows out))\<rparr> \<and>
           slice_from (length ld) od out
             = \<lparr>shape = ld @ [nat rd], vals = concat (map (drop (nat od)) (rows out))\<rparr>"
proof -
  note d = TaskDecoder_init_Inr [OF dec]
  have ne: "ld \<noteq> []" using ld by auto
  obtain x where x: "cat_last [z, obs, a] = Inr x"
    and shx: "shape x = ld @ [nat te + nat od + nat ad]"
    using cat_last3_shape [OF sh ne] by blast
  have w: "nat te + nat od + nat ad = nat (te + od + ad)" using nn by simp
  have "out_width (dec_decoder dec) (nat (te + od + ad)) = Some (nat (od + rd))"
    using d by simp
  then obtain out where out: "apply_seq (dec_decoder dec) x = Inr out"
    and sho: "shape out = ld @ [nat (od + rd)]"
    using apply_seq_shape [of "dec_decoder dec" "nat (te + od + ad)" "nat (od + rd)" x ld]
      shx w by auto
  have raw: "TaskDecoder_forward_raw dec z obs a = Inr out"
    by (simp add: TaskDecoder_forward_raw_def x out)
  have od: "dec_obs_dim dec = od" using d by simp
  have fw: "TaskDecoder_forward dec z obs a
             = Inr (slice_upto (length ld) od out, slice_from (length ld) od out)"
    using ld by (auto simp: TaskDecoder_forward_def raw ndim_def sho od)
  have m: "py_index od (nat (od + rd)) = nat od"
    using nn by (simp add: py_index_nonneg)
  have m': "nat (od + rd) - nat od = nat rd" using nn by simp
  show ?thesis
    using raw sho fw slice_upto_last [OF sho refl, of od] slice_from_last [OF sho refl, of od]
    by (simp add: m m')
qed

lemma decoder_forward_rows:
  assumes "shape out = ld @ [W]" "wf_tensor out" "m \<le> W"
  shows "rows \<lparr>shape = ld @ [m], vals = concat (map (take m) (rows out))\<rparr>
           = map (take m) (rows out)"
    and "rows \<lparr>shape = ld @ [W - m], vals = concat (map (drop m) (rows out))\<rparr>
           = map (drop m) (rows out)"
  using rows_slice_upto [OF assms] rows_slice_from [OF assms(1,2)] by simp_all

lemma wf_TaskDecoder_forward_raw:
  assumes "wf_tensor z" "wf_tensor obs" "wf_tensor a"
    "TaskDecoder_forward_raw dec z obs a = Inr out"
  shows "wf_tensor out"
proof -
  from assms(4) obtain x where x: "cat_last [z, obs, a] = Inr x"
    and out: "apply_seq (dec_decoder dec) x = Inr out"
    by (auto simp: TaskDecoder_forward_raw_def split: sum.splits)
  have "wf_tensor x" using wf_cat_last [OF _ x] assms(1-3) by simp
  then show ?thesis using wf_apply_seq [OF _ out] by simp
qed

subsection \<open>Shapes of the results of the encoder\<close>

lemma encoder_forward_shapes:
  assumes enc: "VAETaskEncoder_init lnf winit od ad rd te hs act lnorm = Inr enc"
    and nn: "0 \<le> od" "0 \<le> ad" "0 \<le> rd" "0 \<le> te"
    and sh: "shape obs = ld @ [nat od]" "shape a = ld @ [nat ad]" "shape rew = ld @ [nat rd]"
    and ld: "length ld = 1 \<or> length ld = 2"
  shows "\<exists>x. VAETaskEncoder_forward_raw rf enc obs a rew hid = Inr (x, None) \<and>
           shape x = ld @ [2 * nat te] \<and>
           VAETaskEncoder_forward rf noise enc obs a rew hid
             = Inr (projr (cat_last [slice_upto (length ld) te x, slice_from (length ld) te x]),
                    slice_upto (length ld) te x, slice_from (length ld) te x,
                    projr (reparameterise enc noise (slice_upto (length ld) te x)
                                                    (slice_from (length ld) te x)),
                    None) \<and>
           shape (slice_upto (length ld) te x) = ld @ [nat te] \<and>
           shape (slice_from (length ld) te x) = ld @ [nat te] \<and>
           shape (projr (cat_last [slice_upto (length ld) te x, slice_from (length ld) te x]))
             = ld @ [2 * nat te] \<and>
           shape (projr (reparameterise enc noise (slice_upto (length ld) te x)
                                                  (slice_from (length ld) te x)))
             = ld @ [nat te]"
proof -
  from VAETaskEncoder_init_Inr [OF enc] obtain fc1 fc2 where
    hs: "hs \<noteq> []" and
    b1: "build_sequential lnf (winit 0) (od + ad + rd) [hs ! 0] act True True = Inr fc1" and
    b2: "build_sequential lnf (winit 1) (hs ! 0) (tl hs @ [te * 2]) act True True = Inr fc2" and
    e: "enc = \<lparr>enc_use_rnn = False, enc_task_emb_dim = te, enc_layer_norm = lnorm,
              enc_rnn_hidden_dim = None, enc_input_fc = Some fc1, enc_rnn = None,
              enc_output_fc = fc2\<rparr>"
    by auto
  have ne: "ld \<noteq> []" using ld by auto
  obtain x0 where x0: "cat_last [obs, a, rew] = Inr x0"
    and sh0: "shape x0 = ld @ [nat od + nat ad + nat rd]"
    using cat_last3_shape [OF sh ne] by blast
  have w0: "nat od + nat ad + nat rd = nat (od + ad + rd)" using nn by simp
  have "out_width fc1 (nat (od + ad + rd)) = Some (nat (hs ! 0))"
    using build_sequential_width [OF b1] by simp
  then obtain x1 where x1: "apply_seq fc1 x0 = Inr x1" and sh1: "shape x1 = ld @ [nat (hs ! 0)]"
    using apply_seq_shape [of fc1 "nat (od + ad + rd)" "nat (hs ! 0)" x0 ld] sh0 w0 by auto
  have "out_width fc2 (nat (hs ! 0)) = Some (nat (te * 2))"
    using build_sequential_width [OF b2] by simp
  then obtain x where x: "apply_seq fc2 x1 = Inr x" and shx': "shape x = ld @ [nat (te * 2)]"
    using apply_seq_shape [of fc2 "nat (hs ! 0)" "nat (te * 2)" x1 ld] sh1 by auto
  have w2: "nat (te * 2) = 2 * nat te" using nn by simp
  have shx: "shape x = ld @ [2 * nat te]" using shx' w2 by simp
  have raw: "VAETaskEncoder_forward_raw rf enc obs a rew hid = Inr (x, None)"
    using x0 x1 x sh1 by (simp add: forward_raw_feedforward e)
  let ?mu = "slice_upto (length ld) te x"
  let ?lv = "slice_from (length ld) te x"
  have split: "split_encoder_output te x = Inr (?mu, ?lv)"
    by (rule split_encoder_output_last [OF shx ld])
  have m: "py_index te (2 * nat te) = nat te"
    using nn by (simp add: py_index_nonneg)
  have mu: "shape ?mu = ld @ [nat te]"
    using slice_upto_last [OF shx refl, of te] by (simp add: m)
  have lv: "shape ?lv = ld @ [nat te]"
    using slice_from_last [OF shx refl, of te] by (simp add: m)
  obtain t where t: "cat_last [?mu, ?lv] = Inr t" and sht: "shape t = ld @ [nat te + nat te]"
    using cat_last2_shape [OF mu lv ne] by blast
  have rp: "reparameterise enc noise ?mu ?lv =
     Inr \<lparr>shape = shape ?mu,
          vals = map2 (+) (vals ?mu)
                   (map2 (*) (map noise [0..<length (vals ?lv)])
                             (map (\<lambda>v. exp (0.5 * v)) (vals ?lv)))\<rparr>"
    by (rule reparameterise_same_shape) (simp add: mu lv)
  have te: "enc_task_emb_dim enc = te" by (simp add: e)
  have fw: "VAETaskEncoder_forward rf noise enc obs a rew hid
        = Inr (t, ?mu, ?lv, projr (reparameterise enc noise ?mu ?lv), None)"
    unfolding VAETaskEncoder_forward_def raw te by (simp add: split t rp)
  show ?thesis
    using raw shx fw mu lv sht by (simp add: t rp)
qed

lemma forward_raw_wf_ndim:
  assumes raw: "VAETaskEncoder_forward_raw rf self obs a rew hid = Inr (x, fh)"
    and ff: "\<not> enc_use_rnn self"
    and wf: "wf_tensor obs" "wf_tensor a" "wf_tensor rew"
    and nd: "2 \<le> ndim obs"
  shows "wf_tensor x \<and> ndim x = ndim obs"
proof -
  from raw obtain x0 x1 where
    x0: "cat_last [obs, a, rew] = Inr x0" and
    x1: "(case enc_input_fc self of None \<Rightarrow> Inr x0 | Some fc \<Rightarrow> apply_seq fc x0) = Inr x1" and
    x: "apply_seq (enc_output_fc self) x1 = Inr x"
    unfolding forward_raw_feedforward [OF ff]
    by (auto split: sum.splits if_splits)
  have wf0: "wf_tensor x0" using wf_cat_last [OF _ x0] wf by simp
  have nd0: "ndim x0 = ndim obs" by (rule ndim_cat_last [OF x0 nd])
  have "wf_tensor x1 \<and> ndim x1 = ndim x0"
    using x1 wf0 by (auto split: option.splits dest: wf_apply_seq ndim_apply_seq)
  then show ?thesis
    using wf_apply_seq [OF _ x] ndim_apply_seq [OF x] nd0 by simp
qed

subsection \<open>The concrete objects\<close>

lemma ex_encoder_init:
  "VAETaskEncoder_init ex_norm ex_winit2 1 1 1 1 [2] ''relu'' True = Inr ex_encoder"
  by (simp add: VAETaskEncoder_init_def build_sequential_def init_layer_def Let_def
        ex_encoder_def)

lemma ex_decoder_init:
  "TaskDecoder_init ex_norm ex_winit 1 1 1 1 ''relu'' = Inr ex_decoder"
  by (simp add: TaskDecoder_init_def build_sequential_def init_layer_def Let_def
        ex_decoder_def)

lemma upt_0_2: "[0..<2] = [0, 1::nat]"
  by (simp add: upt_conv_Cons)

lemma upt_0_3: "[0..<3] = [0, 1, 2::nat]"
  by (simp add: upt_conv_Cons)

lemma ex_decoder_raw_vec:
  "TaskDecoder_forward_raw ex_decoder ex_vec ex_vec ex_vec = Inr \<lparr>shape = [2], vals = [3, 3]\<rparr>"
  by (simp add: TaskDecoder_forward_raw_def ex_decoder_def ex_vec_def cat_last_def rows_def
        nrows_def width_def chunks_def linear_row_def ex_winit_def ex_norm_def
        upt_0_2 upt_0_3)

subsection \<open>Inputs of other ranks\<close>

lemma ndim_cat_last_same:
  assumes "cat_last ts = Inr x" "list_all (\<lambda>t. ndim t = r) ts"
  shows "ndim x = r"
proof (cases "filter (\<lambda>t. shape t \<noteq> [0]) ts")
  case Nil
  from assms(1) have ne: "ts \<noteq> []" by (auto simp: cat_last_def)
  then obtain t where t: "t \<in> set ts" by (cases ts) auto
  with Nil have "shape t = [0]" by (auto simp: filter_empty_conv)
  with t assms(2) have "r = 1" by (auto simp: list_all_iff ndim_def)
  moreover from assms(1) Nil ne have "ndim x = 1"
    by (auto simp: cat_last_def ndim_def)
  ultimately show ?thesis by simp
next
  case (Cons u us)
  have "set (u # us) \<subseteq> set ts" using Cons [symmetric] by auto
  then have "u \<in> set ts" by simp
  with assms(2) have r: "ndim u = r" by (auto simp: list_all_iff)
  from assms(1) Cons have "shape u \<noteq> []" "shape x = butlast (shape u) @ [sum_list (map width (u # us))]"
    by (auto simp: cat_last_def split: if_splits)
  then show ?thesis using r by (cases "shape u") (auto simp: ndim_def)
qed

lemma cat_last3_vec_shape:
  assumes "shape a = [wa]" "shape b = [wb]" "shape c = [wc]" "0 < wa" "0 < wb" "0 < wc"
  shows "\<exists>x. cat_last [a, b, c] = Inr x \<and> shape x = [wa + wb + wc]"
  using assms by (simp add: cat_last_def width_def)

lemma ex_encoder_init_lnorm:
  "VAETaskEncoder_init ex_norm ex_winit2 1 1 1 1 [2] ''relu'' lnorm
     = Inr (ex_encoder\<lparr>enc_layer_norm := lnorm\<rparr>)"
  by (simp add: VAETaskEncoder_init_def build_sequential_def init_layer_def Let_def
        ex_encoder_def)

lemma ex_vae_decoder_init:
  "TaskDecoder_init ex_norm ex_winit 1 1 1 2 ''relu'' = Inr ex_vae_decoder"
  by (simp add: TaskDecoder_init_def build_sequential_def init_layer_def Let_def
        ex_vae_decoder_def)

lemma ex_vae_init:
  "VAE_init ex_norm ex_winit2 ex_winit 1 1 1 1 2 [2] ''relu'' True
     = Inr \<lparr>vae_encoder = ex_encoder, vae_decoder = ex_vae_decoder\<rparr>"
  by (simp add: VAE_init_def ex_encoder_init ex_vae_decoder_init)

lemma ex_vae_decoder_forward:
  "TaskDecoder_forward ex_vae_decoder ex_row ex_row ex_row
     = Inr (\<lparr>shape = [1, 1], vals = [3]\<rparr>, \<lparr>shape = [1, 2], vals = [3, 3]\<rparr>)"
  by (simp add: TaskDecoder_forward_def TaskDecoder_forward_raw_def ex_vae_decoder_def
        ex_row_def cat_last_def rows_def nrows_def width_def chunks_def linear_row_def
        ex_winit_def ex_norm_def upt_0_3 ndim_def slice_upto_def slice_from_def py_index_def)

text \<open>
  With four axes the slices of lines 125 and 126 fall on the third axis, which then is
  not the last one: the two parts are rows of the raw output, and their concatenation
  along the last axis has another shape than the raw output.
\<close>

lemma split_four_axes:
  "split_encoder_output 1 ex_cube
     = Inr (\<lparr>shape = [1, 1, 1, 2], vals = [1, 2]\<rparr>, \<lparr>shape = [1, 1, 1, 2], vals = [3, 4]\<rparr>) \<and>
   cat_last [\<lparr>shape = [1, 1, 1, 2], vals = [1, 2]\<rparr>, \<lparr>shape = [1, 1, 1, 2], vals = [3, 4]\<rparr>]
     = Inr \<lparr>shape = [1, 1, 1, 4], vals = [1, 2, 3, 4]\<rparr>"
  by (simp add: split_encoder_output_def ndim_def ex_cube_def slice_upto_def slice_from_def
        py_index_def chunks_def cat_last_def rows_def nrows_def width_def)

subsection \<open>The layers of a normalised stack\<close>

lemma count_linear_append: "count_linear (xs @ ys) = count_linear xs + count_linear ys"
  by (induction xs rule: count_linear.induct) simp_all

lemma count_norm_append: "count_norm (xs @ ys) = count_norm xs + count_norm ys"
  by (induction xs rule: count_norm.induct) simp_all

lemma hidden_layers_counts:
  "hidden_layers nonlin True lnf winit n hs = Inr rest \<Longrightarrow> nonlin = ReLU \<or> nonlin = Tanh \<Longrightarrow>
   count_linear rest = length hs - 1 \<and> count_norm rest = length hs - 1"
proof (induction nonlin "True" lnf winit n hs arbitrary: rest rule: hidden_layers.induct)
  case (1 nonlin lnf winit n a b hs)
  from "1.prems"(1) obtain rest' where
    ab: "0 \<le> a" "0 \<le> b" and
    r': "hidden_layers nonlin True lnf winit (Suc n) (b # hs) = Inr rest'" and
    rest: "rest = [nonlin, Linear (nat a) (nat b) (winit n) (\<lambda>j. 0), LayerNorm (nat b) lnf]
                  @ rest'"
    by (auto simp: init_layer_def split: sum.splits if_splits)
  have "count_linear rest' = length (b # hs) - 1 \<and> count_norm rest' = length (b # hs) - 1"
    using "1.hyps" [OF _ r'] ab "1.prems"(2) by (auto simp: init_layer_def)
  then show ?case using "1.prems"(2) by (auto simp: rest)
qed simp_all

lemma build_sequential_normed_structure:
  assumes "build_sequential lnf winit n hs act True oa = Inr ls"
  shows "\<exists>rest. ls = Linear (nat n) (nat (hs ! 0)) (winit 0) (\<lambda>j. 0)
                      # LayerNorm (nat (hs ! 0)) lnf # rest"
    and "count_linear ls = length hs" and "count_norm ls = length hs"
proof -
  let ?nonlin = "if act = ''relu'' then ReLU else Tanh"
  from assms obtain rest where
    hs: "hs \<noteq> []" and
    r: "hidden_layers ?nonlin True lnf winit 1 hs = Inr rest" and
    ls: "ls = [Linear (nat n) (nat (hs ! 0)) (winit 0) (\<lambda>j. 0), LayerNorm (nat (hs ! 0)) lnf]
              @ (rest @ (if oa then [?nonlin] else []))"
    by (auto simp: build_sequential_def Let_def init_layer_def split: sum.splits if_splits)
  show "\<exists>rest. ls = Linear (nat n) (nat (hs ! 0)) (winit 0) (\<lambda>j. 0)
                      # LayerNorm (nat (hs ! 0)) lnf # rest"
    by (simp add: ls)
  have c: "count_linear rest = length hs - 1 \<and> count_norm rest = length hs - 1"
    using hidden_layers_counts [OF r] by auto
  have l: "0 < length hs" using hs by simp
  show "count_linear ls = length hs" using c l
    by (simp add: ls count_linear_append)
  show "count_norm ls = length hs" using c l
    by (simp add: ls count_norm_append)
qed

lemma build_sequential_single:
  assumes "build_sequential lnf winit n [h] act True True = Inr ls"
  shows "ls = [Linear (nat n) (nat h) (winit 0) (\<lambda>j. 0), LayerNorm (nat h) lnf,
               if act = ''relu'' then ReLU else Tanh]"
  using assms
  by (auto simp: build_sequential_def Let_def init_layer_def split: sum.splits if_splits)

subsection \<open>A call on inputs of four axes\<close>

text \<open>
  The constructed encoder \<open>ex_encoder\<close> on three inputs of shape \<open>[1, 1, 2, 1]\<close>: the
  call returns, and the returned \<open>task_emb\<close> has the shape \<open>[1, 1, 1, 4]\<close> where the
  raw output has \<open>[1, 1, 2, 2]\<close>.
\<close>

lemma ex_cat_quad:
  "cat_last [ex_quad, ex_quad, ex_quad] = Inr \<lparr>shape = [1, 1, 2, 3], vals = [1, 1, 1, 1, 1, 1]\<rparr>"
  by (simp add: ex_quad_def cat_last_def rows_def nrows_def width_def chunks_def upt_0_2)

lemma ex_input_fc_quad:
  "apply_seq [Linear 3 2 (ex_winit2 0 0) (\<lambda>j. 0), LayerNorm 2 ex_norm, ReLU]
      \<lparr>shape = [1, 1, 2, 3], vals = [1, 1, 1, 1, 1, 1]\<rparr>
   = Inr \<lparr>shape = [1, 1, 2, 2], vals = [3, 3, 3, 3]\<rparr>"
  by (simp add: rows_def nrows_def width_def chunks_def linear_row_def ex_winit2_def
        ex_norm_def map_vals_def upt_0_2 upt_0_3)

lemma ex_output_fc_quad:
  "apply_seq [Linear 2 2 (ex_winit2 1 0) (\<lambda>j. 0), LayerNorm 2 ex_norm, ReLU]
      \<lparr>shape = [1, 1, 2, 2], vals = [3, 3, 3, 3]\<rparr>
   = Inr \<lparr>shape = [1, 1, 2, 2], vals = [6, 6, 6, 6]\<rparr>"
  by (simp add: rows_def nrows_def width_def chunks_def linear_row_def ex_winit2_def
        ex_norm_def map_vals_def upt_0_2)

lemma ex_forward_raw_quad:
  "VAETaskEncoder_forward_raw ex_rnn_forward ex_encoder ex_quad ex_quad ex_quad None
     = Inr (\<lparr>shape = [1, 1, 2, 2], vals = [6, 6, 6, 6]\<rparr>, None)"
proof -
  have fc: "enc_input_fc ex_encoder
              = Some [Linear 3 2 (ex_winit2 0 0) (\<lambda>j. 0), LayerNorm 2 ex_norm, ReLU]"
    "enc_output_fc ex_encoder = [Linear 2 2 (ex_winit2 1 0) (\<lambda>j. 0), LayerNorm 2 ex_norm, ReLU]"
    "\<not> enc_use_rnn ex_encoder"
    by (simp_all add: ex_encoder_def)
  show ?thesis
    unfolding forward_raw_feedforward [OF fc(3)] ex_cat_quad fc(1,2)
    by (simp only: sum.case option.case ex_input_fc_quad ex_output_fc_quad) simp
qed

lemma ex_split_quad:
  "split_encoder_output 1 \<lparr>shape = [1, 1, 2, 2], vals = [6, 6, 6, 6]\<rparr>
     = Inr (\<lparr>shape = [1, 1, 1, 2], vals = [6, 6]\<rparr>, \<lparr>shape = [1, 1, 1, 2], vals = [6, 6]\<rparr>)"
  by (simp add: split_encoder_output_def ndim_def slice_upto_def slice_from_def
        py_index_def chunks_def)

lemma ex_cat_split_quad:
  "cat_last [\<lparr>shape = [1, 1, 1, 2], vals = [6, 6]\<rparr>, \<lparr>shape = [1, 1, 1, 2], vals = [6, 6]\<rparr>]
     = Inr \<lparr>shape = [1, 1, 1, 4], vals = [6, 6, 6, 6]\<rparr>"
  by (simp add: cat_last_def rows_def nrows_def width_def chunks_def)

lemma ex_forward_quad:
  "VAETaskEncoder_forward ex_rnn_forward ex_noise ex_encoder ex_quad ex_quad ex_quad None
     = Inr (\<lparr>shape = [1, 1, 1, 4], vals = [6, 6, 6, 6]\<rparr>,
            \<lparr>shape = [1, 1, 1, 2], vals = [6, 6]\<rparr>,
            \<lparr>shape = [1, 1, 1, 2], vals = [6, 6]\<rparr>,
            \<lparr>shape = [1, 1, 1, 2], vals = [6 + exp 3, 6 + exp 3]\<rparr>,
            None)"
proof -
  have te: "enc_task_emb_dim ex_encoder = 1" by (simp add: ex_encoder_def)
  have rp: "reparameterise ex_encoder ex_noise \<lparr>shape = [1, 1, 1, 2], vals = [6, 6]\<rparr>
              \<lparr>shape = [1, 1, 1, 2], vals = [6, 6]\<rparr>
            = Inr \<lparr>shape = [1, 1, 1, 2], vals = [6 + exp 3, 6 + exp 3]\<rparr>"
    by (simp add: reparameterise_same_shape ex_noise_def upt_0_2)
  show ?thesis
    unfolding VAETaskEncoder_forward_def ex_forward_raw_quad te
    by (simp only: sum.case prod.case ex_split_quad ex_cat_split_quad rp)
qed

subsection \<open>The claims\<close>



text \<open>
  C2. For positive \<open>obs_dim\<close>, \<open>act_dim\<close>, \<open>rew_dim\<close> and \<open>task_embedding_dim\<close>,
  a non-empty \<open>hiddens\<close> of positive widths and a supported activation, the encoder is
  constructed, and on inputs of shapes \<open>ld @ [obs_dim]\<close>, \<open>ld @ [act_dim]\<close> and
  \<open>ld @ [rew_dim]\<close>, with one or two leading axes \<open>ld\<close>, \<open>forward\<close> returns
  \<open>mean\<close> and \<open>log_variance\<close> of shape \<open>ld @ [task_embedding_dim]\<close> and
  \<open>task_embedding\<close> of shape \<open>ld @ [2 * task_embedding_dim]\<close>: the leading axes
  are those of the input and no axis is added.
\<close>

theorem encoder_forward_shape:
  assumes "0 < od" "0 < ad" "0 < rd" "0 < te" "hs \<noteq> []" "list_all (\<lambda>h. 0 < h) hs"
    and "act = ''relu'' \<or> act = ''tanh''"
    and "shape obs = ld @ [nat od]" "shape a = ld @ [nat ad]" "shape rew = ld @ [nat rd]"
    and "length ld = 1 \<or> length ld = 2"
  shows "\<exists>enc task_emb mu log_var z.
           VAETaskEncoder_init lnf winit od ad rd te hs act lnorm = Inr enc \<and>
           VAETaskEncoder_forward rf noise enc obs a rew hid
             = Inr (task_emb, mu, log_var, z, None) \<and>
           shape mu = ld @ [nat te] \<and>
           shape log_var = ld @ [nat te] \<and>
           shape task_emb = ld @ [2 * nat te] \<and>
           shape z = ld @ [nat te] \<and>
           ndim mu = ndim obs \<and> ndim log_var = ndim obs \<and> ndim task_emb = ndim obs"
proof -
  have h0: "0 \<le> hs ! 0" using assms(5,6) by (cases hs) auto
  have "\<exists>fc1. build_sequential lnf (winit 0) (od + ad + rd) [hs ! 0] act True True = Inr fc1"
    using assms(1-3) h0 by (intro build_sequential_ok [OF assms(7)]) auto
  then obtain fc1 where
    b1: "build_sequential lnf (winit 0) (od + ad + rd) [hs ! 0] act True True = Inr fc1"
    by blast
  have pos: "list_all (\<lambda>h. 0 \<le> h) (tl hs @ [te * 2])"
    using assms(4,5,6) by (cases hs) (auto simp: list_all_iff intro: less_imp_le)
  have "\<exists>fc2. build_sequential lnf (winit 1) (hs ! 0) (tl hs @ [te * 2]) act True True = Inr fc2"
    using h0 pos by (intro build_sequential_ok [OF assms(7)]) auto
  then obtain fc2 where
    b2: "build_sequential lnf (winit 1) (hs ! 0) (tl hs @ [te * 2]) act True True = Inr fc2"
    by blast
  note enc = VAETaskEncoder_init_eq [OF assms(5) b1 b2, of lnorm]
  show ?thesis
    using encoder_forward_shapes [OF enc _ _ _ _ assms(8-11), of rf hid noise] assms(1-4) enc
    by (auto simp: ndim_def assms(8))
qed

theorem encoder_forward_shape_witness:
  "\<exists>enc task_emb mu log_var z.
     VAETaskEncoder_init ex_norm ex_winit2 1 1 1 1 [2] ''relu'' True = Inr enc \<and>
     VAETaskEncoder_forward ex_rnn_forward ex_noise enc ex_row ex_row ex_row None
       = Inr (task_emb, mu, log_var, z, None) \<and>
     shape mu = [1, 1] \<and> shape log_var = [1, 1] \<and> shape task_emb = [1, 2] \<and>
     ndim task_emb = 2"
  using encoder_forward_shape [where od = 1 and ad = 1 and rd = 1 and te = 1 and hs = "[2]"
          and act = "''relu''" and obs = ex_row and a = ex_row and rew = ex_row and ld = "[1]"
          and lnf = ex_norm and winit = ex_winit2 and lnorm = True and rf = ex_rnn_forward
          and noise = ex_noise and hid = None]
  by (auto simp: ex_row_def ndim_def numeral_2_eq_2)

text \<open>
  C3. For a constructed decoder with positive dimensions and inputs of shapes
  \<open>ld @ [task_embedding_dim]\<close>, \<open>ld @ [obs_dim]\<close> and \<open>ld @ [act_dim]\<close>, with one or
  two leading axes, \<open>forward\<close> returns as predicted observation the first \<open>obs_dim\<close>
  features of every row of the raw output of the stack and as predicted reward the
  remaining \<open>rew_dim\<close> features; their widths add up to the width of the raw output.
\<close>

theorem decoder_split:
  assumes "TaskDecoder_init lnf winit te od ad rd act = Inr dec"
    and "0 < te" "0 < od" "0 < ad" "0 < rd"
    and "shape z = ld @ [nat te]" "shape obs = ld @ [nat od]" "shape a = ld @ [nat ad]"
    and "length ld = 1 \<or> length ld = 2"
    and "wf_tensor z" "wf_tensor obs" "wf_tensor a"
  shows "\<exists>out obs_pred rew_pred.
           TaskDecoder_forward_raw dec z obs a = Inr out \<and>
           TaskDecoder_forward dec z obs a = Inr (obs_pred, rew_pred) \<and>
           shape out = ld @ [nat od + nat rd] \<and>
           shape obs_pred = ld @ [nat od] \<and>
           shape rew_pred = ld @ [nat rd] \<and>
           rows obs_pred = map (take (nat od)) (rows out) \<and>
           rows rew_pred = map (drop (nat od)) (rows out) \<and>
           width obs_pred + width rew_pred = width out"
proof -
  obtain out where raw: "TaskDecoder_forward_raw dec z obs a = Inr out"
    and sho: "shape out = ld @ [nat (od + rd)]"
    and fw: "TaskDecoder_forward dec z obs a
             = Inr (slice_upto (length ld) od out, slice_from (length ld) od out)"
    and up: "slice_upto (length ld) od out
             = \<lparr>shape = ld @ [nat od], vals = concat (map (take (nat od)) (rows out))\<rparr>"
    and fr: "slice_from (length ld) od out
             = \<lparr>shape = ld @ [nat rd], vals = concat (map (drop (nat od)) (rows out))\<rparr>"
    using decoder_forward_shapes [OF assms(1) _ _ _ _ assms(6-9)] assms(2-5)
    by (metis less_imp_le)
  have wf: "wf_tensor out"
    by (rule wf_TaskDecoder_forward_raw [OF assms(10-12) raw])
  have s: "nat (od + rd) = nat od + nat rd" "nat (od + rd) - nat od = nat rd"
    using assms(3,5) by simp_all
  have r1: "rows (slice_upto (length ld) od out) = map (take (nat od)) (rows out)"
    unfolding up by (rule decoder_forward_rows(1) [OF sho wf]) (simp add: s)
  have r2: "rows (slice_from (length ld) od out) = map (drop (nat od)) (rows out)"
    unfolding fr using decoder_forward_rows(2) [OF sho wf, of "nat od"] by (simp add: s)
  show ?thesis
    using raw fw sho r1 r2 by (simp add: s up fr)
qed

theorem decoder_split_witness:
  "\<exists>out obs_pred rew_pred.
     TaskDecoder_forward_raw ex_decoder ex_row ex_row ex_row = Inr out \<and>
     TaskDecoder_forward ex_decoder ex_row ex_row ex_row = Inr (obs_pred, rew_pred) \<and>
     shape out = [1, 2] \<and> shape obs_pred = [1, 1] \<and> shape rew_pred = [1, 1] \<and>
     rows obs_pred = map (take 1) (rows out) \<and> rows rew_pred = map (drop 1) (rows out)"
  using decoder_split [OF ex_decoder_init, where z = ex_row and obs = ex_row and a = ex_row
          and ld = "[1]"]
  by (auto simp: ex_row_def wf_tensor_def numeral_2_eq_2)

text \<open>
  C4 does not hold on every call: on inputs of four axes the call returns, lines 125 and
  126 slice the third axis, which is not the last one, and the returned
  \<open>task_embedding\<close> differs from the raw output of the output stack.
\<close>

theorem task_emb_four_axes_counterexample:
  "VAETaskEncoder_init ex_norm ex_winit2 1 1 1 1 [2] ''relu'' True = Inr ex_encoder \<and>
   ndim ex_quad = 4 \<and>
   VAETaskEncoder_forward_raw ex_rnn_forward ex_encoder ex_quad ex_quad ex_quad None
     = Inr (\<lparr>shape = [1, 1, 2, 2], vals = [6, 6, 6, 6]\<rparr>, None) \<and>
   VAETaskEncoder_forward ex_rnn_forward ex_noise ex_encoder ex_quad ex_quad ex_quad None
     = Inr (\<lparr>shape = [1, 1, 1, 4], vals = [6, 6, 6, 6]\<rparr>,
            \<lparr>shape = [1, 1, 1, 2], vals = [6, 6]\<rparr>,
            \<lparr>shape = [1, 1, 1, 2], vals = [6, 6]\<rparr>,
            \<lparr>shape = [1, 1, 1, 2], vals = [6 + exp 3, 6 + exp 3]\<rparr>,
            None) \<and>
   \<lparr>shape = [1, 1, 1, 4], vals = [6, 6, 6, 6]\<rparr>
     \<noteq> \<lparr>shape = [1, 1, 2, 2], vals = [6::real, 6, 6, 6]\<rparr>"
  by (simp add: ex_encoder_init ex_forward_raw_quad ex_forward_quad)
     (simp add: ndim_def ex_quad_def)

text \<open>
  C4, amended. On a call of \<open>forward\<close> that returns, with inputs of two or three axes
  (the object is in non-recurrent mode, as every constructed object is), the returned
  \<open>task_embedding\<close> is the raw output of the output stack: concatenating the two
  slices \<open>mean\<close> and \<open>log_variance\<close> gives back the tensor they were cut from.
\<close>

theorem task_emb_is_raw_output:
  assumes "VAETaskEncoder_forward rf noise self obs a rew hid
             = Inr (task_emb, mu, log_var, z, fh)"
    and "\<not> enc_use_rnn self"
    and "wf_tensor obs" "wf_tensor a" "wf_tensor rew"
    and "ndim obs = 2 \<or> ndim obs = 3"
  shows "VAETaskEncoder_forward_raw rf self obs a rew hid = Inr (task_emb, fh) \<and>
         split_encoder_output (enc_task_emb_dim self) task_emb = Inr (mu, log_var) \<and>
         cat_last [mu, log_var] = Inr task_emb"
proof -
  from assms(1) obtain x where
    raw: "VAETaskEncoder_forward_raw rf self obs a rew hid = Inr (x, fh)" and
    sp: "split_encoder_output (enc_task_emb_dim self) x = Inr (mu, log_var)" and
    ct: "cat_last [mu, log_var] = Inr task_emb"
    by (auto simp: VAETaskEncoder_forward_def split: sum.splits prod.splits)
  have "2 \<le> ndim obs" using assms(6) by auto
  from forward_raw_wf_ndim [OF raw assms(2-5) this]
  have wf: "wf_tensor x" and nd: "ndim x = ndim obs" by simp_all
  define ld where "ld = butlast (shape x)"
  define W where "W = last (shape x)"
  have ne: "shape x \<noteq> []" using nd assms(6) by (auto simp: ndim_def)
  then have sh: "shape x = ld @ [W]" by (simp add: ld_def W_def)
  have len: "length ld = 1 \<or> length ld = 2"
    using nd assms(6) by (auto simp: ndim_def ld_def)
  then have ldne: "ld \<noteq> []" by auto
  have "split_encoder_output (enc_task_emb_dim self) x
        = Inr (slice_upto (length ld) (enc_task_emb_dim self) x,
               slice_from (length ld) (enc_task_emb_dim self) x)"
    by (rule split_encoder_output_last [OF sh len])
  with sp have mu: "mu = slice_upto (length ld) (enc_task_emb_dim self) x"
    and lv: "log_var = slice_from (length ld) (enc_task_emb_dim self) x"
    by simp_all
  have "cat_last [mu, log_var] = Inr x"
    unfolding mu lv by (rule cat_last_split [OF sh ldne wf refl])
  with ct have "task_emb = x" by simp
  then show ?thesis using raw sp ct by simp
qed

theorem task_emb_is_raw_output_witness:
  "\<exists>task_emb mu log_var z.
     VAETaskEncoder_forward ex_rnn_forward ex_noise ex_encoder ex_row ex_row ex_row None
       = Inr (task_emb, mu, log_var, z, None) \<and>
     VAETaskEncoder_forward_raw ex_rnn_forward ex_encoder ex_row ex_row ex_row None
       = Inr (task_emb, None) \<and>
     cat_last [mu, log_var] = Inr task_emb"
proof -
  have sh: "shape ex_row = [1] @ [nat 1]" by (simp add: ex_row_def)
  obtain task_emb mu log_var z where
    fw: "VAETaskEncoder_forward ex_rnn_forward ex_noise ex_encoder ex_row ex_row ex_row None
           = Inr (task_emb, mu, log_var, z, None)"
    using encoder_forward_shapes [OF ex_encoder_init _ _ _ _ sh sh sh,
            of ex_rnn_forward None ex_noise]
    by auto
  have "\<not> enc_use_rnn ex_encoder" by (simp add: ex_encoder_def)
  moreover have "wf_tensor ex_row" "ndim ex_row = 2 \<or> ndim ex_row = 3"
    by (simp_all add: ex_row_def wf_tensor_def ndim_def)
  ultimately show ?thesis
    using task_emb_is_raw_output [OF fw] fw by blast
qed

text \<open>
  C5 does not hold as stated: \<^verbatim>\<open>VAE.__init__\<close> passes \<open>n_agents\<close>, not \<open>rew_dim\<close>, as
  the reward dimension of the decoder. With \<open>rew_dim = 1\<close> and \<open>n_agents = 2\<close> (the
  fourth and the fifth dimension argument of \<open>VAE_init\<close>) the encoder is the one built
  for \<open>rew_dim = 1\<close> and the decoder predicts rewards of width 2.
\<close>

theorem vae_reward_width_counterexample:
  "VAE_init ex_norm ex_winit2 ex_winit 1 1 1 1 2 [2] ''relu'' True
     = Inr \<lparr>vae_encoder = ex_encoder, vae_decoder = ex_vae_decoder\<rparr> \<and>
   VAETaskEncoder_init ex_norm ex_winit2 1 1 1 1 [2] ''relu'' True = Inr ex_encoder \<and>
   dec_rew_dim ex_vae_decoder = 2 \<and> dec_rew_dim ex_vae_decoder \<noteq> 1 \<and>
   TaskDecoder_forward ex_vae_decoder ex_row ex_row ex_row
     = Inr (\<lparr>shape = [1, 1], vals = [3]\<rparr>, \<lparr>shape = [1, 2], vals = [3, 3]\<rparr>)"
  by (simp add: ex_vae_init ex_encoder_init ex_vae_decoder_forward)
     (simp add: ex_vae_decoder_def)

text \<open>
  C5, amended. The encoder and the decoder of a constructed \<open>VAE\<close> share
  \<open>task_emb_dim\<close>, \<open>obs_dim\<close>, \<open>act_dim\<close> and the activation; the encoder is
  parameterised by \<open>rew_dim\<close>, and the reward output width of the decoder is \<open>n_agents\<close>.
\<close>

theorem vae_shared_dimensions:
  assumes "VAE_init lnf we wd te od ad rd na hs act lnorm = Inr v"
  shows "VAETaskEncoder_init lnf we od ad rd te hs act lnorm = Inr (vae_encoder v) \<and>
         TaskDecoder_init lnf wd te od ad na act = Inr (vae_decoder v) \<and>
         enc_task_emb_dim (vae_encoder v) = te \<and>
         dec_obs_dim (vae_decoder v) = od \<and>
         dec_rew_dim (vae_decoder v) = na \<and>
         out_width (dec_decoder (vae_decoder v)) (nat (te + od + ad)) = Some (nat (od + na)) \<and>
         (0 < te \<and> 0 < od \<and> 0 < ad \<and> 0 < na \<and>
          shape z = ld @ [nat te] \<and> shape obs = ld @ [nat od] \<and> shape a = ld @ [nat ad] \<and>
          (length ld = 1 \<or> length ld = 2) \<longrightarrow>
            (\<exists>obs_pred rew_pred.
               TaskDecoder_forward (vae_decoder v) z obs a = Inr (obs_pred, rew_pred) \<and>
               shape obs_pred = ld @ [nat od] \<and> shape rew_pred = ld @ [nat na]))"
proof -
  from assms obtain enc dec where
    e: "VAETaskEncoder_init lnf we od ad rd te hs act lnorm = Inr enc" and
    d: "TaskDecoder_init lnf wd te od ad na act = Inr dec" and
    v: "v = \<lparr>vae_encoder = enc, vae_decoder = dec\<rparr>"
    by (auto simp: VAE_init_def split: sum.splits)
  note e' = VAETaskEncoder_init_Inr [OF e]
  note d' = TaskDecoder_init_Inr [OF d]
  have fw: "\<exists>obs_pred rew_pred.
               TaskDecoder_forward dec z obs a = Inr (obs_pred, rew_pred) \<and>
               shape obs_pred = ld @ [nat od] \<and> shape rew_pred = ld @ [nat na]"
    if h: "0 < te \<and> 0 < od \<and> 0 < ad \<and> 0 < na \<and>
          shape z = ld @ [nat te] \<and> shape obs = ld @ [nat od] \<and> shape a = ld @ [nat ad] \<and>
          (length ld = 1 \<or> length ld = 2)"
    using decoder_forward_shapes [OF d, of z ld obs a] h by auto
  show ?thesis
    using e d e' d' fw by (auto simp: v)
qed

theorem vae_shared_dimensions_witness:
  "\<exists>v. VAE_init ex_norm ex_winit2 ex_winit 1 1 1 1 2 [2] ''relu'' True = Inr v \<and>
        dec_rew_dim (vae_decoder v) = 2 \<and> dec_obs_dim (vae_decoder v) = 1 \<and>
        enc_task_emb_dim (vae_encoder v) = 1 \<and>
        (\<exists>obs_pred rew_pred.
           TaskDecoder_forward (vae_decoder v) ex_row ex_row ex_row = Inr (obs_pred, rew_pred) \<and>
           shape rew_pred = [1, 2])"
  using vae_shared_dimensions [OF ex_vae_init, where z = ex_row and obs = ex_row and a = ex_row
          and ld = "[1]"] ex_vae_init
  by (auto simp: ex_row_def)

text \<open>
  C6 does not hold as stated: no dimension is checked for positivity. With
  \<open>obs_dim = 0\<close> the construction of the encoder and of the decoder succeeds.
\<close>

theorem degenerate_dimension_counterexample:
  "\<not> isl (VAETaskEncoder_init ex_norm ex_winit2 0 7 1 10 [64] ''relu'' True) \<and>
   \<not> isl (TaskDecoder_init ex_norm ex_winit 10 0 7 1 ''relu'')"
  by (simp add: VAETaskEncoder_init_def TaskDecoder_init_def build_sequential_def
        init_layer_def Let_def)

text \<open>
  C6, amended. The construction of an encoder with \<open>hiddens = []\<close> fails with an
  \<open>IndexError\<close> (line 63 reads \<^verbatim>\<open>hiddens[0]\<close>), and \<open>build_sequential\<close> with a
  supported activation and \<open>hiddens = []\<close> fails with the assertion of line 23 (the
  decoder has no \<open>hiddens\<close> argument). With \<open>obs_dim = 0\<close>, the other dimensions
  positive, a supported activation and non-empty positive \<open>hiddens\<close>, the construction
  of the encoder and of the decoder succeeds.
\<close>

theorem degenerate_dimensions:
  "VAETaskEncoder_init lnf winit2 od ad rd te [] act lnorm = Inl IndexError
   \<and> (act = ''relu'' \<or> act = ''tanh'' \<longrightarrow>
        build_sequential lnf winit n [] act lnorm oa = Inl AssertionError)
   \<and> (act = ''relu'' \<or> act = ''tanh'' \<longrightarrow> 0 < ad \<and> 0 < rd \<and> 0 < te \<longrightarrow>
        hs \<noteq> [] \<and> list_all (\<lambda>h. 0 < h) hs \<longrightarrow>
          \<not> isl (VAETaskEncoder_init lnf winit2 0 ad rd te hs act lnorm) \<and>
          \<not> isl (TaskDecoder_init lnf winit te 0 ad rd act))"
proof (intro conjI impI)
  show "VAETaskEncoder_init lnf winit2 od ad rd te [] act lnorm = Inl IndexError"
    by (simp add: VAETaskEncoder_init_def)
next
  assume "act = ''relu'' \<or> act = ''tanh''"
  then show "build_sequential lnf winit n [] act lnorm oa = Inl AssertionError"
    by (auto simp: build_sequential_def)
next
  assume act: "act = ''relu'' \<or> act = ''tanh''"
    and pos: "0 < ad \<and> 0 < rd \<and> 0 < te"
    and hs: "hs \<noteq> [] \<and> list_all (\<lambda>h. 0 < h) hs"
  have h0: "0 \<le> hs ! 0" using hs by (cases hs) auto
  have "\<exists>fc1. build_sequential lnf (winit2 0) (0 + ad + rd) [hs ! 0] act True True = Inr fc1"
    using pos h0 by (intro build_sequential_ok [OF act]) auto
  then obtain fc1 where
    b1: "build_sequential lnf (winit2 0) (0 + ad + rd) [hs ! 0] act True True = Inr fc1"
    by blast
  have "list_all (\<lambda>h. 0 \<le> h) (tl hs @ [te * 2])"
    using pos hs by (cases hs) (auto simp: list_all_iff intro: less_imp_le)
  then have "\<exists>fc2. build_sequential lnf (winit2 1) (hs ! 0) (tl hs @ [te * 2]) act True True
                    = Inr fc2"
    using h0 by (intro build_sequential_ok [OF act]) auto
  then obtain fc2 where
    b2: "build_sequential lnf (winit2 1) (hs ! 0) (tl hs @ [te * 2]) act True True = Inr fc2"
    by blast
  show "\<not> isl (VAETaskEncoder_init lnf winit2 0 ad rd te hs act lnorm)"
    using VAETaskEncoder_init_eq [OF _ b1 b2, of lnorm] hs by simp
  have "\<exists>d. build_sequential lnf winit (te + 0 + ad) [0 + rd] act True False = Inr d"
    using pos by (intro build_sequential_ok [OF act]) auto
  then show "\<not> isl (TaskDecoder_init lnf winit te 0 ad rd act)"
    by (auto simp: TaskDecoder_init_def)
qed

theorem degenerate_dimensions_witness:
  "VAETaskEncoder_init ex_norm ex_winit2 1 1 1 1 [] ''relu'' True = Inl IndexError \<and>
   build_sequential ex_norm ex_winit 1 [] ''relu'' True False = Inl AssertionError \<and>
   \<not> isl (VAETaskEncoder_init ex_norm ex_winit2 0 7 1 10 [64] ''relu'' True) \<and>
   \<not> isl (TaskDecoder_init ex_norm ex_winit 10 0 7 1 ''relu'')"
  using degenerate_dimensions [where lnf = ex_norm and ?winit2.0 = ex_winit2 and od = 1
          and ad = 1 and rd = 1 and te = 1 and act = "''relu''" and lnorm = True
          and winit = ex_winit and n = 1 and oa = False and hs = "[64]"]
        degenerate_dimensions [where lnf = ex_norm and ?winit2.0 = ex_winit2 and od = 1
          and ad = 7 and rd = 1 and te = 10 and act = "''relu''" and lnorm = True
          and winit = ex_winit and n = 1 and oa = False and hs = "[64]"]
  by simp

text \<open>
  C7 does not hold for every construction of an encoder: with \<open>hiddens = []\<close> line 63
  reads \<^verbatim>\<open>hiddens[0]\<close> before \<open>build_sequential\<close> sees the activation, and the
  construction fails with an \<open>IndexError\<close>.
\<close>

theorem encoder_activation_counterexample:
  "VAETaskEncoder_init ex_norm ex_winit2 1 1 1 1 [] ''gelu'' True = Inl IndexError \<and>
   VAETaskEncoder_init ex_norm ex_winit2 1 1 1 1 [] ''gelu'' True
     \<noteq> Inl (ValueError ''Unknown activation option gelu!'')"
  by (simp add: VAETaskEncoder_init_def)

text \<open>
  C7, amended. With an activation other than \<open>relu\<close> and \<open>tanh\<close>, \<open>build_sequential\<close>
  fails with the error of line 21, and so does the construction of a decoder and of an
  encoder whose \<open>hiddens\<close> is not empty; with \<open>relu\<close> or \<open>tanh\<close> none of the three
  fails with that error.
\<close>

theorem unsupported_activation:
  "(activation \<noteq> ''relu'' \<and> activation \<noteq> ''tanh'' \<longrightarrow>
      build_sequential lnf winit n hs activation lnorm oa
        = Inl (ValueError (''Unknown activation option '' @ activation @ ''!'')) \<and>
      TaskDecoder_init lnf winit te od ad rd activation
        = Inl (ValueError (''Unknown activation option '' @ activation @ ''!'')) \<and>
      (hiddens \<noteq> [] \<longrightarrow>
         VAETaskEncoder_init lnf winit2 od ad rd te hiddens activation lnorm
           = Inl (ValueError (''Unknown activation option '' @ activation @ ''!''))))
   \<and> (activation = ''relu'' \<or> activation = ''tanh'' \<longrightarrow>
        (\<forall>msg. build_sequential lnf winit n hs activation lnorm oa \<noteq> Inl (ValueError msg)) \<and>
        (\<forall>msg. TaskDecoder_init lnf winit te od ad rd activation \<noteq> Inl (ValueError msg)) \<and>
        (\<forall>msg. VAETaskEncoder_init lnf winit2 od ad rd te hiddens activation lnorm
                  \<noteq> Inl (ValueError msg)))"
proof (intro conjI impI allI)
  assume a: "activation \<noteq> ''relu'' \<and> activation \<noteq> ''tanh''"
  then show "build_sequential lnf winit n hs activation lnorm oa
        = Inl (ValueError (''Unknown activation option '' @ activation @ ''!''))"
    by (simp add: build_sequential_unknown)
  from a show "TaskDecoder_init lnf winit te od ad rd activation
        = Inl (ValueError (''Unknown activation option '' @ activation @ ''!''))"
    by (simp add: TaskDecoder_init_def build_sequential_unknown)
  assume "hiddens \<noteq> []"
  with a show "VAETaskEncoder_init lnf winit2 od ad rd te hiddens activation lnorm
           = Inl (ValueError (''Unknown activation option '' @ activation @ ''!''))"
    by (simp add: VAETaskEncoder_init_def build_sequential_unknown)
next
  fix msg
  assume a: "activation = ''relu'' \<or> activation = ''tanh''"
  show "build_sequential lnf winit n hs activation lnorm oa \<noteq> Inl (ValueError msg)"
    using build_sequential_error [OF a] by fastforce
  show "TaskDecoder_init lnf winit te od ad rd activation \<noteq> Inl (ValueError msg)"
    using build_sequential_error [OF a]
    by (fastforce simp: TaskDecoder_init_def split: sum.splits)
  show "VAETaskEncoder_init lnf winit2 od ad rd te hiddens activation lnorm
          \<noteq> Inl (ValueError msg)"
    using build_sequential_error [OF a]
    by (fastforce simp: VAETaskEncoder_init_def Let_def split: sum.splits if_splits)
qed

theorem unsupported_activation_witness:
  "build_sequential ex_norm ex_winit 1 [1] ''gelu'' True False
     = Inl (ValueError ''Unknown activation option gelu!'') \<and>
   TaskDecoder_init ex_norm ex_winit 1 1 1 1 ''gelu''
     = Inl (ValueError ''Unknown activation option gelu!'') \<and>
   VAETaskEncoder_init ex_norm ex_winit2 1 1 1 1 [2] ''gelu'' True
     = Inl (ValueError ''Unknown activation option gelu!'') \<and>
   build_sequential ex_norm ex_winit 1 [1] ''relu'' True False
     \<noteq> Inl (ValueError ''Unknown activation option relu!'')"
  using unsupported_activation [where activation = "''gelu''" and lnf = ex_norm
          and winit = ex_winit and n = 1 and hs = "[1]" and lnorm = True and oa = False
          and te = 1 and od = 1 and ad = 1 and rd = 1 and hiddens = "[2]"
          and ?winit2.0 = ex_winit2]
        unsupported_activation [where activation = "''relu''" and lnf = ex_norm
          and winit = ex_winit and n = 1 and hs = "[1]" and lnorm = True and oa = False
          and te = 1 and od = 1 and ad = 1 and rd = 1 and hiddens = "[2]"
          and ?winit2.0 = ex_winit2]
  by simp

text \<open>
  C8 does not hold as stated: the rank is not checked when the call starts. On three
  inputs of one axis the concatenation and the whole decoder stack are computed, and the
  call fails only afterwards, and not with the error of a shape mismatch.
\<close>

theorem decoder_rank_counterexample:
  "TaskDecoder_init ex_norm ex_winit 1 1 1 1 ''relu'' = Inr ex_decoder \<and>
   ndim ex_vec = 1 \<and>
   TaskDecoder_forward_raw ex_decoder ex_vec ex_vec ex_vec = Inr \<lparr>shape = [2], vals = [3, 3]\<rparr> \<and>
   TaskDecoder_forward ex_decoder ex_vec ex_vec ex_vec = Inl UnboundLocalError \<and>
   TaskDecoder_forward ex_decoder ex_vec ex_vec ex_vec \<noteq> Inl RuntimeError"
  by (simp add: ex_decoder_init ex_decoder_raw_vec TaskDecoder_forward_def ndim_def)
     (simp add: ex_vec_def)

text \<open>
  C8, amended. On inputs whose common number of axes is neither 2 nor 3 the call of
  \<open>forward\<close> of the decoder returns no result. It fails late: for a constructed decoder
  and one-axis inputs of the widths it was built for, the concatenation and the decoder
  stack are computed in full before the call fails.
\<close>

theorem decoder_other_rank_fails:
  "(ndim z = r \<and> ndim obs = r \<and> ndim a = r \<and> r \<noteq> 2 \<and> r \<noteq> 3 \<longrightarrow>
      isl (TaskDecoder_forward self z obs a))
   \<and> (TaskDecoder_init lnf winit te od ad rd act = Inr dec \<and>
       0 < te \<and> 0 < od \<and> 0 < ad \<and> 0 < rd \<and>
       shape z = [nat te] \<and> shape obs = [nat od] \<and> shape a = [nat ad] \<longrightarrow>
       (\<exists>x out. cat_last [z, obs, a] = Inr x \<and> apply_seq (dec_decoder dec) x = Inr out \<and>
                 shape out = [nat (od + rd)] \<and>
                 TaskDecoder_forward_raw dec z obs a = Inr out \<and>
                 isl (TaskDecoder_forward dec z obs a)))"
proof (intro conjI impI)
  assume h: "ndim z = r \<and> ndim obs = r \<and> ndim a = r \<and> r \<noteq> 2 \<and> r \<noteq> 3"
  show "isl (TaskDecoder_forward self z obs a)"
  proof (cases "TaskDecoder_forward_raw self z obs a")
    case (Inl e)
    then show ?thesis by (simp add: TaskDecoder_forward_def)
  next
    case (Inr out)
    then obtain x where x: "cat_last [z, obs, a] = Inr x"
      and out: "apply_seq (dec_decoder self) x = Inr out"
      by (auto simp: TaskDecoder_forward_raw_def split: sum.splits)
    have "ndim x = r" using ndim_cat_last_same [OF x, of r] h by simp
    then have "ndim out = r" using ndim_apply_seq [OF out] by simp
    then show ?thesis using h Inr by (simp add: TaskDecoder_forward_def)
  qed
next
  assume h: "TaskDecoder_init lnf winit te od ad rd act = Inr dec \<and>
       0 < te \<and> 0 < od \<and> 0 < ad \<and> 0 < rd \<and>
       shape z = [nat te] \<and> shape obs = [nat od] \<and> shape a = [nat ad]"
  note d = TaskDecoder_init_Inr [of lnf winit te od ad rd act dec]
  obtain x where x: "cat_last [z, obs, a] = Inr x"
    and shx: "shape x = [nat te + nat od + nat ad]"
    using cat_last3_vec_shape [of z "nat te" obs "nat od" a "nat ad"] h by auto
  have w: "nat te + nat od + nat ad = nat (te + od + ad)" using h by (simp add: nat_add_distrib)
  have "out_width (dec_decoder dec) (nat (te + od + ad)) = Some (nat (od + rd))"
    using d h by simp
  then obtain out where out: "apply_seq (dec_decoder dec) x = Inr out"
    and sho: "shape out = [nat (od + rd)]"
    using apply_seq_shape [of "dec_decoder dec" "nat (te + od + ad)" "nat (od + rd)" x "[]"]
      shx w by auto
  have raw: "TaskDecoder_forward_raw dec z obs a = Inr out"
    by (simp add: TaskDecoder_forward_raw_def x out)
  have "isl (TaskDecoder_forward dec z obs a)"
    by (simp add: TaskDecoder_forward_def raw ndim_def sho)
  then show "\<exists>x out. cat_last [z, obs, a] = Inr x \<and> apply_seq (dec_decoder dec) x = Inr out \<and>
                 shape out = [nat (od + rd)] \<and>
                 TaskDecoder_forward_raw dec z obs a = Inr out \<and>
                 isl (TaskDecoder_forward dec z obs a)"
    using x out sho raw by blast
qed

theorem decoder_other_rank_fails_witness:
  "ndim ex_vec = 1 \<and> isl (TaskDecoder_forward ex_decoder ex_vec ex_vec ex_vec) \<and>
   (\<exists>out. TaskDecoder_forward_raw ex_decoder ex_vec ex_vec ex_vec = Inr out \<and> shape out = [2])"
  using decoder_other_rank_fails [where z = ex_vec and obs = ex_vec and a = ex_vec and r = 1
          and self = ex_decoder and dec = ex_decoder and lnf = ex_norm and winit = ex_winit
          and te = 1 and od = 1 and ad = 1 and rd = 1 and act = "''relu''"]
        ex_decoder_init
  by (auto simp: ndim_def ex_vec_def)

text \<open>
  C9. Every constructed encoder is in non-recurrent mode and has no attribute
  \<open>rnn_hidden_dim\<close>, and \<open>init_hidden\<close> fails on it for every batch size.
\<close>

theorem init_hidden_fails:
  assumes "VAETaskEncoder_init lnf winit od ad rd te hs act lnorm = Inr enc"
  shows "\<not> enc_use_rnn enc \<and> enc_rnn_hidden_dim enc = None \<and>
         init_hidden enc batch_size = Inl AttributeError"
  using VAETaskEncoder_init_Inr [OF assms] by (auto simp: init_hidden_def)

theorem init_hidden_fails_witness:
  "\<exists>enc. VAETaskEncoder_init ex_norm ex_winit2 1 1 1 1 [2] ''relu'' True = Inr enc \<and>
         \<not> enc_use_rnn enc \<and> init_hidden enc 1 = Inl AttributeError"
  using init_hidden_fails [OF ex_encoder_init, of 1] ex_encoder_init by simp

text \<open>
  C10. The stacks of a constructed encoder do not depend on the argument
  \<open>layer_norm\<close>. The input stack is a linear layer, a normalisation of its width and
  the nonlinearity; the output stack starts with a linear layer and a normalisation of
  its width, holds as many normalisations as linear layers (one for each entry of
  \<open>hiddens\<close>), and every linear layer in it is directly followed by a normalisation.
  The stack of a constructed decoder is one linear layer followed by a normalisation, so
  that its output is the normalised output of the linear layer.
\<close>

theorem layer_norm_always_enabled:
  "map_sum id (\<lambda>e. (enc_input_fc e, enc_output_fc e))
       (VAETaskEncoder_init lnf winit od ad rd te hs act lnorm)
     = map_sum id (\<lambda>e. (enc_input_fc e, enc_output_fc e))
         (VAETaskEncoder_init lnf winit od ad rd te hs act lnorm')
   \<and> (VAETaskEncoder_init lnf winit od ad rd te hs act lnorm = Inr enc \<longrightarrow>
        (\<exists>fc. enc_input_fc enc = Some fc \<and> linear_then_norm fc) \<and>
        linear_then_norm (enc_output_fc enc) \<and>
        enc_input_fc enc
          = Some [Linear (nat (od + ad + rd)) (nat (hs ! 0)) (winit 0 0) (\<lambda>j. 0),
                  LayerNorm (nat (hs ! 0)) lnf,
                  if act = ''relu'' then ReLU else Tanh] \<and>
        (\<exists>rest. enc_output_fc enc
           = Linear (nat (hs ! 0)) (nat ((tl hs @ [te * 2]) ! 0)) (winit 1 0) (\<lambda>j. 0)
             # LayerNorm (nat ((tl hs @ [te * 2]) ! 0)) lnf # rest) \<and>
        count_linear (enc_output_fc enc) = length hs \<and>
        count_norm (enc_output_fc enc) = length hs)
   \<and> (TaskDecoder_init lnf winit' te od ad rd act = Inr dec \<longrightarrow>
        dec_decoder dec = [Linear (nat (te + od + ad)) (nat (od + rd)) (winit' 0) (\<lambda>j. 0),
                           LayerNorm (nat (od + rd)) lnf] \<and>
        linear_then_norm (dec_decoder dec) \<and>
        (\<forall>x. apply_seq (dec_decoder dec) x =
              (case apply_layer (Linear (nat (te + od + ad)) (nat (od + rd)) (winit' 0) (\<lambda>j. 0)) x of
                 Inl e \<Rightarrow> Inl e
               | Inr y \<Rightarrow> apply_layer (LayerNorm (nat (od + rd)) lnf) y)))"
proof (intro conjI impI)
  show "map_sum id (\<lambda>e. (enc_input_fc e, enc_output_fc e))
       (VAETaskEncoder_init lnf winit od ad rd te hs act lnorm)
     = map_sum id (\<lambda>e. (enc_input_fc e, enc_output_fc e))
         (VAETaskEncoder_init lnf winit od ad rd te hs act lnorm')"
    by (simp add: VAETaskEncoder_init_def Let_def split: sum.splits)
next
  assume a: "VAETaskEncoder_init lnf winit od ad rd te hs act lnorm = Inr enc"
  from VAETaskEncoder_init_Inr [OF a] obtain fc1 fc2 where
    hs: "hs \<noteq> []" and
    b1: "build_sequential lnf (winit 0) (od + ad + rd) [hs ! 0] act True True = Inr fc1" and
    b2: "build_sequential lnf (winit 1) (hs ! 0) (tl hs @ [te * 2]) act True True = Inr fc2" and
    e: "enc_input_fc enc = Some fc1" "enc_output_fc enc = fc2"
    by auto
  show "\<exists>fc. enc_input_fc enc = Some fc \<and> linear_then_norm fc"
    using e build_sequential_normed [OF b1] by simp
  show "linear_then_norm (enc_output_fc enc)"
    using e build_sequential_normed [OF b2] by simp
  show "enc_input_fc enc
          = Some [Linear (nat (od + ad + rd)) (nat (hs ! 0)) (winit 0 0) (\<lambda>j. 0),
                  LayerNorm (nat (hs ! 0)) lnf,
                  if act = ''relu'' then ReLU else Tanh]"
    using e(1) build_sequential_single [OF b1] by simp
  show "\<exists>rest. enc_output_fc enc
           = Linear (nat (hs ! 0)) (nat ((tl hs @ [te * 2]) ! 0)) (winit 1 0) (\<lambda>j. 0)
             # LayerNorm (nat ((tl hs @ [te * 2]) ! 0)) lnf # rest"
    using e(2) build_sequential_normed_structure(1) [OF b2] by simp
  have "length (tl hs @ [te * 2]) = length hs" using hs by simp
  then show "count_linear (enc_output_fc enc) = length hs"
    and "count_norm (enc_output_fc enc) = length hs"
    using e(2) build_sequential_normed_structure(2,3) [OF b2] by simp_all
next
  assume a: "TaskDecoder_init lnf winit' te od ad rd act = Inr dec"
  note d = TaskDecoder_init_Inr [OF a]
  show "dec_decoder dec = [Linear (nat (te + od + ad)) (nat (od + rd)) (winit' 0) (\<lambda>j. 0),
                           LayerNorm (nat (od + rd)) lnf]"
    using d by simp
  then show "linear_then_norm (dec_decoder dec)" by simp
  show "\<forall>x. apply_seq (dec_decoder dec) x =
              (case apply_layer (Linear (nat (te + od + ad)) (nat (od + rd)) (winit' 0) (\<lambda>j. 0)) x of
                 Inl e \<Rightarrow> Inl e
               | Inr y \<Rightarrow> apply_layer (LayerNorm (nat (od + rd)) lnf) y)"
    using d by (auto split: sum.splits)
qed

theorem layer_norm_always_enabled_witness:
  "\<exists>enc dec.
     VAETaskEncoder_init ex_norm ex_winit2 1 1 1 1 [2] ''relu'' False = Inr enc \<and>
     enc_input_fc enc
       = Some [Linear 3 2 (ex_winit2 0 0) (\<lambda>j. 0), LayerNorm 2 ex_norm, ReLU] \<and>
     (\<exists>rest. enc_output_fc enc
        = Linear 2 2 (ex_winit2 1 0) (\<lambda>j. 0) # LayerNorm 2 ex_norm # rest) \<and>
     count_linear (enc_output_fc enc) = 1 \<and> count_norm (enc_output_fc enc) = 1 \<and>
     linear_then_norm (enc_output_fc enc) \<and>
     TaskDecoder_init ex_norm ex_winit 1 1 1 1 ''relu'' = Inr dec \<and>
     dec_decoder dec = [Linear 3 2 (ex_winit 0) (\<lambda>j. 0), LayerNorm 2 ex_norm]"
  using layer_norm_always_enabled [where lnf = ex_norm and winit = ex_winit2 and od = 1
          and ad = 1 and rd = 1 and te = 1 and hs = "[2]" and act = "''relu''"
          and lnorm = False and lnorm' = True and winit' = ex_winit
          and enc = "ex_encoder\<lparr>enc_layer_norm := False\<rparr>" and dec = ex_decoder]
        ex_encoder_init_lnorm [of False] ex_decoder_init
  by simp

end
